theory Spec2Isabelle
  imports Complex_Main "HOL-Library.Multiset"
begin

section \<open>JavaScript values used by the component\<close>

text \<open>
  A TypeScript \<^verbatim>\<open>number\<close> is an IEEE double.  The finite values are modelled by
  reals and the three special values are kept, because the component compares and
  scales whatever number the caller supplies.  The result of an arithmetic
  operation on finite values passes through \<open>fl\<close> below, which gives the range of
  the doubles: a result too large overflows to an infinity and a result too small
  underflows to zero.  Inside the range the rounding to 53 significant bits is not
  modelled, and there is one zero.
\<close>

datatype number = Num real | PosInfinity | NegInfinity | NaN

text \<open>A property that may hold \<^verbatim>\<open>undefined\<close>, \<^verbatim>\<open>null\<close> or a value
  (\<^verbatim>\<open>fx?: number | null\<close> of d3's \<^verbatim>\<open>SimulationNodeDatum\<close>).\<close>

datatype 'a nullable = Undefined | Null | Value 'a

fun isNaN :: "number \<Rightarrow> bool" where
  "isNaN NaN = True"
| "isNaN _ = False"

fun isFinite :: "number \<Rightarrow> bool" where
  "isFinite (Num r) = True"
| "isFinite _ = False"

text \<open>\<^verbatim>\<open>a < b\<close> and \<^verbatim>\<open>a >= b\<close> on numbers: every comparison with NaN is false.\<close>

fun lt :: "number \<Rightarrow> number \<Rightarrow> bool" where
  "lt NaN _ = False"
| "lt _ NaN = False"
| "lt (Num a) (Num b) = (a < b)"
| "lt (Num a) PosInfinity = True"
| "lt (Num a) NegInfinity = False"
| "lt PosInfinity _ = False"
| "lt NegInfinity NegInfinity = False"
| "lt NegInfinity _ = True"

fun ge :: "number \<Rightarrow> number \<Rightarrow> bool" where
  "ge NaN _ = False"
| "ge _ NaN = False"
| "ge (Num a) (Num b) = (a \<ge> b)"
| "ge (Num a) PosInfinity = False"
| "ge (Num a) NegInfinity = True"
| "ge PosInfinity _ = True"
| "ge NegInfinity NegInfinity = True"
| "ge NegInfinity _ = False"

text \<open>Truthiness of a number, as \<^verbatim>\<open>||\<close> and \<^verbatim>\<open>?:\<close> read it: 0 and NaN are falsy.\<close>

fun truthy :: "number \<Rightarrow> bool" where
  "truthy (Num r) = (r \<noteq> 0)"
| "truthy NaN = False"
| "truthy _ = True"

fun neg :: "number \<Rightarrow> number" where
  "neg (Num r) = Num (- r)"
| "neg PosInfinity = NegInfinity"
| "neg NegInfinity = PosInfinity"
| "neg NaN = NaN"

fun Math_abs :: "number \<Rightarrow> number" where
  "Math_abs (Num r) = Num \<bar>r\<bar>"
| "Math_abs PosInfinity = PosInfinity"
| "Math_abs NegInfinity = PosInfinity"
| "Math_abs NaN = NaN"

text \<open>The sign of an infinite result: \<open>signed True\<close> is \<open>+\<infinity>\<close>.\<close>

definition signed :: "bool \<Rightarrow> number" where
  "signed positive = (if positive then PosInfinity else NegInfinity)"

text \<open>
  The range of the doubles under round-to-nearest.  The greatest double is
  \<^verbatim>\<open>(2^53 - 1) * 2^971\<close>; a real of magnitude at least \<^verbatim>\<open>(2^54 - 1) * 2^970\<close>,
  half a unit in the last place above it, rounds to an infinity.  The least
  positive double is \<^verbatim>\<open>2^-1074\<close>; a real of magnitude at most half of it rounds to
  zero.
\<close>

definition overflowThreshold :: real where
  "overflowThreshold = (2 ^ 54 - 1) * 2 ^ 970"

definition underflowThreshold :: real where
  "underflowThreshold = 1 / 2 ^ 1075"

definition fl :: "real \<Rightarrow> number" where
  "fl r = (if overflowThreshold \<le> \<bar>r\<bar> then signed (0 < r)
           else if \<bar>r\<bar> \<le> underflowThreshold then Num 0
           else Num r)"

fun add :: "number \<Rightarrow> number \<Rightarrow> number" where
  "add NaN _ = NaN"
| "add _ NaN = NaN"
| "add (Num a) (Num b) = fl (a + b)"
| "add (Num a) b = b"
| "add a (Num b) = a"
| "add PosInfinity PosInfinity = PosInfinity"
| "add NegInfinity NegInfinity = NegInfinity"
| "add _ _ = NaN"

definition sub :: "number \<Rightarrow> number \<Rightarrow> number" where
  "sub a b = add a (neg b)"

fun mul :: "number \<Rightarrow> number \<Rightarrow> number" where
  "mul NaN _ = NaN"
| "mul _ NaN = NaN"
| "mul (Num a) (Num b) = fl (a * b)"
| "mul (Num a) PosInfinity = (if a = 0 then NaN else signed (0 < a))"
| "mul (Num a) NegInfinity = (if a = 0 then NaN else signed (a < 0))"
| "mul PosInfinity (Num b) = (if b = 0 then NaN else signed (0 < b))"
| "mul NegInfinity (Num b) = (if b = 0 then NaN else signed (b < 0))"
| "mul PosInfinity PosInfinity = PosInfinity"
| "mul NegInfinity NegInfinity = PosInfinity"
| "mul _ _ = NegInfinity"

text \<open>Division; a zero divisor is read as \<open>+0\<close> (the model has one zero).\<close>

fun divide_number :: "number \<Rightarrow> number \<Rightarrow> number" where
  "divide_number NaN _ = NaN"
| "divide_number _ NaN = NaN"
| "divide_number (Num a) (Num b) =
     (if b = 0 then (if a = 0 then NaN else signed (0 < a)) else fl (a / b))"
| "divide_number (Num a) _ = Num 0"
| "divide_number PosInfinity (Num b) = signed (0 \<le> b)"
| "divide_number NegInfinity (Num b) = signed (b < 0)"
| "divide_number _ _ = NaN"

text \<open>\<^verbatim>\<open>Math.pow(x, n)\<close> for a natural exponent.\<close>

fun Math_pow :: "number \<Rightarrow> nat \<Rightarrow> number" where
  "Math_pow x 0 = Num 1"
| "Math_pow (Num r) n = fl (r ^ n)"
| "Math_pow PosInfinity n = PosInfinity"
| "Math_pow NegInfinity n = signed (even n)"
| "Math_pow NaN n = NaN"

subsection \<open>Objects as ordered property lists\<close>

text \<open>
  \<^verbatim>\<open>nodeData: { [key: string]: number }\<close> is a plain object.  It is modelled by its
  own properties in the order of their creation (insertion order), keys distinct.
  \<^verbatim>\<open>Object.entries\<close> enumerates the keys that are array indices first, in
  ascending numeric order, and the other string keys after them in creation
  order.  An array index is a canonical decimal numeral below \<open>2\<^sup>3\<^sup>2 - 1\<close>.
\<close>

definition dec_value :: "string \<Rightarrow> nat" where
  "dec_value s = foldl (\<lambda>acc c. 10 * acc + (of_char c - 48)) 0 s"

definition is_array_index :: "string \<Rightarrow> bool" where
  "is_array_index s =
     (s \<noteq> [] \<and> list_all (\<lambda>c. c \<in> set ''0123456789'') s
      \<and> (s = ''0'' \<or> hd s \<noteq> CHR ''0'') \<and> dec_value s < 4294967295)"

definition Object_entries :: "(string \<times> 'v) list \<Rightarrow> (string \<times> 'v) list" where
  "Object_entries obj =
     sort_key (\<lambda>(k, v). dec_value k) (filter (\<lambda>(k, v). is_array_index k) obj)
     @ filter (\<lambda>(k, v). \<not> is_array_index k) obj"

section \<open>Configuration (config.ts)\<close>

record Config =
  minNodeSize :: number
  maxNodeSize :: number
  minLinkWidth :: number
  maxLinkWidth :: number
  labelOffset :: number
  defaultLinkOpacity :: number
  highlightOpacity :: number
  fadedOpacity :: number
  legendOpacity :: number
  zoomExtent :: "number \<times> number"
  nodeCharge :: number
  linkStrength :: number
  collisionForce :: number
  simulationAlpha :: number
  colors :: "string list"

definition config :: Config where
  "config = \<lparr>
     minNodeSize = Num 5,
     maxNodeSize = Num 20,
     minLinkWidth = Num (5/4),
     maxLinkWidth = Num 3,
     labelOffset = Num 5,
     defaultLinkOpacity = Num (6/10),
     highlightOpacity = Num 1,
     fadedOpacity = Num (5/100),
     legendOpacity = Num (1/2),
     zoomExtent = (Num (1/10), Num 8),
     nodeCharge = Num (- 200),
     linkStrength = Num (1/1000),
     collisionForce = Num 5,
     simulationAlpha = Num (5/1000),
     colors = [''#e6194B'', ''#3cb44b'', ''#9999FF'', ''#FFA07A'', ''#F0E68C'', ''#FF99FF'',
       ''#00FFFF'', ''#800000'', ''#1ABC9C'', ''#000080'', ''#808000'',
       ''#800080'', ''#008080'', ''#FFA500'', ''#A52A2A'', ''#FFC0CB'',
       ''#98FB98'', ''#DDA0DD'', ''#FFD700'', ''#40E0D0'']
   \<rparr>"

section \<open>Data model (NetworkGraph.tsx)\<close>

text \<open>
  Field names follow the interfaces of the source; \<^verbatim>\<open>id\<close>, \<^verbatim>\<open>value\<close>, \<^verbatim>\<open>x\<close> and
  \<^verbatim>\<open>y\<close> carry their owner as a prefix.
\<close>

record EdgeData =
  edge_source :: string
  edge_target :: string
  edge_value :: number

record Node =
  node_id :: string
  originalName :: string
  group :: string
  node_value :: number
  visible :: bool
  node_x :: "number option"
  node_y :: "number option"
  fx :: "number nullable"
  fy :: "number nullable"

text \<open>
  A link endpoint is \<^verbatim>\<open>string | Node\<close>: the id given in the edge data, or, once
  d3's link force has resolved it, a reference to a node object.  The node objects
  of one graph are the elements of its \<^verbatim>\<open>nodes\<close> array, so a reference is the
  position of the object in that array.
\<close>

datatype endpoint = NodeId string | NodeRef nat

record Link =
  source :: endpoint
  target :: endpoint
  link_value :: number

text \<open>Lines 159--165: one node per entry of \<^verbatim>\<open>Object.entries(nodeData)\<close>.\<close>

definition newNode :: "string \<times> number \<Rightarrow> Node" where
  "newNode = (\<lambda>(key, v). \<lparr>
     node_id = key, originalName = key, group = key, node_value = v, visible = True,
     node_x = None, node_y = None, fx = Undefined, fy = Undefined \<rparr>)"

definition buildNodes :: "(string \<times> number) list \<Rightarrow> Node list" where
  "buildNodes nodeData = map newNode (Object_entries nodeData)"

text \<open>Lines 168--176: the edges whose two ends are ids of nodes, as links.\<close>

definition newLink :: "EdgeData \<Rightarrow> Link" where
  "newLink d = \<lparr> source = NodeId (edge_source d), target = NodeId (edge_target d),
     link_value = edge_value d \<rparr>"

definition buildLinks :: "Node list \<Rightarrow> EdgeData list \<Rightarrow> Link list" where
  "buildLinks nodes edgeData =
     map newLink
       (filter (\<lambda>d. list_ex (\<lambda>n. node_id n = edge_source d) nodes
                  \<and> list_ex (\<lambda>n. node_id n = edge_target d) nodes) edgeData)"

text \<open>Line 147: whether the link-filter buttons are shown.\<close>

definition hasNegativeLinks :: "Link list \<Rightarrow> bool" where
  "hasNegativeLinks linksArray = list_ex (\<lambda>link. lt (link_value link) (Num 0)) linksArray"

section \<open>The d3 functions the component calls\<close>

subsection \<open>\<^verbatim>\<open>d3.max\<close> and the scales (d3-array, d3-scale, d3-interpolate)\<close>

text \<open>
  \<^verbatim>\<open>d3.max\<close> keeps the greatest value under \<^verbatim>\<open><\<close>, skipping values that do not
  compare with themselves (NaN); it returns \<^verbatim>\<open>undefined\<close> (\<open>None\<close>) when no value
  is left.
\<close>

definition d3_max :: "number list \<Rightarrow> number option" where
  "d3_max values =
     foldl (\<lambda>mx v. if (case mx of None \<Rightarrow> ge v v | Some m \<Rightarrow> lt m v) then Some v else mx)
       None values"

text \<open>\<^verbatim>\<open>d3.max(...) || 1\<close>\<close>

definition or_one :: "number option \<Rightarrow> number" where
  "or_one m = (case m of None \<Rightarrow> Num 1 | Some v \<Rightarrow> if truthy v then v else Num 1)"

text \<open>
  A continuous scale with a two-point domain and range (\<^verbatim>\<open>continuous.js\<close>):
  \<^verbatim>\<open>normalize(a, b)\<close> maps the domain to \<open>[0, 1]\<close>, \<^verbatim>\<open>interpolateNumber\<close> maps \<open>[0, 1]\<close>
  to the range, \<^verbatim>\<open>bimap\<close> orders the domain, and the scale itself answers
  \<^verbatim>\<open>unknown\<close> (\<^verbatim>\<open>undefined\<close>, here \<open>None\<close>) to a NaN argument.  Clamping is off.
\<close>

definition normalize :: "number \<Rightarrow> number \<Rightarrow> number \<Rightarrow> number" where
  "normalize a b =
     (let b' = sub b a in
      if truthy b' then (\<lambda>x. divide_number (sub x a) b')
      else (\<lambda>x. if isNaN b' then NaN else Num (1/2)))"

definition interpolateNumber :: "number \<Rightarrow> number \<Rightarrow> number \<Rightarrow> number" where
  "interpolateNumber a b = (\<lambda>t. add (mul a (sub (Num 1) t)) (mul b t))"

definition bimap :: "number \<times> number \<Rightarrow> number \<times> number \<Rightarrow> number \<Rightarrow> number" where
  "bimap dmn rng =
     (case (dmn, rng) of ((d0, d1), (r0, r1)) \<Rightarrow>
        if lt d1 d0 then (\<lambda>x. interpolateNumber r1 r0 (normalize d1 d0 x))
        else (\<lambda>x. interpolateNumber r0 r1 (normalize d0 d1 x)))"

definition scaleLinear :: "number \<times> number \<Rightarrow> number \<times> number \<Rightarrow> number \<Rightarrow> number option" where
  "scaleLinear dmn rng x = (if isNaN x then None else Some (bimap dmn rng x))"

text \<open>\<^verbatim>\<open>scalePow().exponent(k)\<close>: the same, on the transformed domain and argument.\<close>

definition transformPow :: "nat \<Rightarrow> number \<Rightarrow> number" where
  "transformPow exponent x =
     (if lt x (Num 0) then neg (Math_pow (neg x) exponent) else Math_pow x exponent)"

definition scalePow :: "nat \<Rightarrow> number \<times> number \<Rightarrow> number \<times> number \<Rightarrow> number \<Rightarrow> number option" where
  "scalePow exponent dmn rng x =
     (if isNaN x then None
      else Some (bimap (transformPow exponent (fst dmn), transformPow exponent (snd dmn)) rng
                   (transformPow exponent x)))"

text \<open>Lines 185--195: the two scales of a graph.\<close>

definition sizeScale :: "Node list \<Rightarrow> number \<Rightarrow> number option" where
  "sizeScale nodes =
     scaleLinear (Num 0, or_one (d3_max (map node_value nodes)))
       (minNodeSize config, maxNodeSize config)"

definition linkScale :: "Link list \<Rightarrow> number \<Rightarrow> number option" where
  "linkScale links =
     scalePow 3 (Num 0, or_one (d3_max (map (\<lambda>d. Math_abs (link_value d)) links)))
       (minLinkWidth config, maxLinkWidth config)"

text \<open>A number read from a value that may be \<^verbatim>\<open>undefined\<close>: \<^verbatim>\<open>undefined * 1.5\<close> is NaN.\<close>

definition toNumber :: "number option \<Rightarrow> number" where
  "toNumber v = (case v of None \<Rightarrow> NaN | Some n \<Rightarrow> n)"

text \<open>
  Line 183: the ordinal colour scale.  Its domain is implicit: the keys in the order
  of their first lookup, which is the order of the nodes (line 247).
\<close>

definition colorScale :: "Node list \<Rightarrow> string \<Rightarrow> string" where
  "colorScale nodes d =
     (let domain = rev (remdups (rev (map group nodes)));
          i = length (takeWhile (\<lambda>k. k \<noteq> d) domain)
      in colors config ! (i mod length (colors config)))"

subsection \<open>The force simulation (d3-force)\<close>

text \<open>
  Of the simulation the handlers touch the target temperature and the timer.  The
  forces and the decay of alpha run on d3's timer and are outside this model; what
  \<^verbatim>\<open>forceSimulation(nodes)\<close> and \<^verbatim>\<open>forceLink(links)\<close> do to the component's own
  objects when they are created is inside it.
\<close>

record Simulation =
  alphaTarget :: number
  running :: bool

definition forceSimulation :: Simulation where
  "forceSimulation = \<lparr> alphaTarget = Num 0, running = True \<rparr>"

text \<open>\<^verbatim>\<open>simulation.stop()\<close> stops the timer and leaves the rest as it is.\<close>

definition stop :: "Simulation \<Rightarrow> Simulation" where
  "stop sim = sim\<lparr>running := False\<rparr>"

text \<open>\<^verbatim>\<open>initializeNodes\<close>: a node without a position is placed on a spiral.\<close>

definition initialRadius :: real where
  "initialRadius = 10"

definition initialAngle :: real where
  "initialAngle = pi * (3 - sqrt 5)"

definition defined_number :: "number option \<Rightarrow> bool" where
  "defined_number v = (case v of None \<Rightarrow> False | Some n \<Rightarrow> \<not> isNaN n)"

definition initializeNode :: "nat \<Rightarrow> Node \<Rightarrow> Node" where
  "initializeNode i node =
     (let node1 = (case fx node of Value v \<Rightarrow> node\<lparr>node_x := Some v\<rparr> | _ \<Rightarrow> node);
          node2 = (case fy node1 of Value v \<Rightarrow> node1\<lparr>node_y := Some v\<rparr> | _ \<Rightarrow> node1)
      in if \<not> defined_number (node_x node2) \<or> \<not> defined_number (node_y node2)
         then (let radius = initialRadius * sqrt (1/2 + real i); angle = real i * initialAngle
               in node2\<lparr>node_x := Some (Num (radius * cos angle)),
                        node_y := Some (Num (radius * sin angle))\<rparr>)
         else node2)"

definition initializeNodes :: "Node list \<Rightarrow> Node list" where
  "initializeNodes nodes = map (\<lambda>(i, node). initializeNode i node) (zip [0..<length nodes] nodes)"

text \<open>
  \<^verbatim>\<open>forceLink(links).id(d => d.id)\<close>, when the force is added to the simulation:
  every endpoint that is still an id is replaced by the node object with that id
  (the last one, as \<^verbatim>\<open>nodeById\<close> is a \<^verbatim>\<open>Map\<close> filled in array order), and an id
  with no node throws \<^verbatim>\<open>node not found\<close>.
\<close>

datatype error = NodeNotFound string

definition nodeById :: "Node list \<Rightarrow> string \<Rightarrow> nat option" where
  "nodeById nodes = map_of (rev (zip (map node_id nodes) [0..<length nodes]))"

definition find_endpoint :: "Node list \<Rightarrow> endpoint \<Rightarrow> error + endpoint" where
  "find_endpoint nodes e =
     (case e of
        NodeRef i \<Rightarrow> Inr (NodeRef i)
      | NodeId s \<Rightarrow> (case nodeById nodes s of None \<Rightarrow> Inl (NodeNotFound s) | Some i \<Rightarrow> Inr (NodeRef i)))"

fun forceLink_initialize :: "Node list \<Rightarrow> Link list \<Rightarrow> error + Link list" where
  "forceLink_initialize nodes [] = Inr []"
| "forceLink_initialize nodes (link # links) =
     (case find_endpoint nodes (source link) of
        Inl e \<Rightarrow> Inl e
      | Inr s \<Rightarrow>
          (case find_endpoint nodes (target link) of
             Inl e \<Rightarrow> Inl e
           | Inr t \<Rightarrow>
               (case forceLink_initialize nodes links of
                  Inl e \<Rightarrow> Inl e
                | Inr links' \<Rightarrow> Inr (link\<lparr>source := s, target := t\<rparr> # links'))))"

section \<open>The component\<close>

subsection \<open>State\<close>

text \<open>
  The rendered elements, with the attributes and inline styles the component sets.
  A style or attribute that is not set, or was set to \<^verbatim>\<open>null\<close> or \<^verbatim>\<open>undefined\<close>
  (which removes it), is \<open>None\<close>.
\<close>

record LinkElement =
  classes :: "string set"
  stroke_width :: "number option"
  stroke_opacity :: "number option"
  stroke :: "string option"
  display :: "string option"

record NodeElement =
  attr_r :: "number option"
  fill :: string
  opacity :: "number option"

record LabelElement =
  label_text :: string
  dx :: number
  dy :: number
  label_opacity :: "number option"

text \<open>
  The state of a mounted component: its props, its React state, and the objects the
  last run of the main effect created.  \<^verbatim>\<open>nodesArray\<close> and \<^verbatim>\<open>linksArray\<close> hold the
  very objects of the effect's \<^verbatim>\<open>nodes\<close> and \<^verbatim>\<open>links\<close> (lines 179--180), so one list
  stands for both; the d3 selections \<^verbatim>\<open>link\<close>, \<^verbatim>\<open>node\<close> and \<^verbatim>\<open>labels\<close> are the element
  lists, element \<open>k\<close> bound to datum \<open>k\<close>.  \<open>generation\<close> counts the simulations
  created so far: the current one is the newest.  \<open>superseded\<close> holds the
  simulations of the earlier runs of the main effect, oldest first, each as the
  cleanup of its run left it (line 419).
\<close>

record GraphState =
  props_nodeData :: "(string \<times> number) list"
  props_edgeData :: "EdgeData list"
  currentFilter :: string
  nodesArray :: "Node list"
  linksArray :: "Link list"
  simulation :: Simulation
  generation :: nat
  superseded :: "Simulation list"
  linkElements :: "LinkElement list"
  nodeElements :: "NodeElement list"
  labelElements :: "LabelElement list"

subsection \<open>Reading an endpoint\<close>

text \<open>The value of a \<^verbatim>\<open>string | Node\<close> property, as \<^verbatim>\<open>typeof\<close> tells it apart.\<close>

datatype StringOrNode = Str string | Obj Node

definition deref :: "Node list \<Rightarrow> endpoint \<Rightarrow> StringOrNode" where
  "deref ns e = (case e of NodeId s \<Rightarrow> Str s | NodeRef i \<Rightarrow> Obj (ns ! i))"

text \<open>Lines 133--139.\<close>

definition getNodeX :: "StringOrNode \<Rightarrow> number" where
  "getNodeX v = (case v of Obj n \<Rightarrow> (case node_x n of Some c \<Rightarrow> c | None \<Rightarrow> Num 0) | Str s \<Rightarrow> Num 0)"

definition getNodeY :: "StringOrNode \<Rightarrow> number" where
  "getNodeY v = (case v of Obj n \<Rightarrow> (case node_y n of Some c \<Rightarrow> c | None \<Rightarrow> Num 0) | Str s \<Rightarrow> Num 0)"

text \<open>\<^verbatim>\<open>typeof e === 'object' ? e.id : e\<close> (lines 386--387, 436--437).\<close>

definition endpointId :: "StringOrNode \<Rightarrow> string" where
  "endpointId v = (case v of Obj n \<Rightarrow> node_id n | Str s \<Rightarrow> s)"

text \<open>\<^verbatim>\<open>typeof e === 'object' ? e : nodes.find((n) => n.id === e)\<close> (lines 331--334).\<close>

definition endpointNode :: "Node list \<Rightarrow> StringOrNode \<Rightarrow> Node option" where
  "endpointNode ns v = (case v of Obj n \<Rightarrow> Some n | Str s \<Rightarrow> find (\<lambda>n. node_id n = s) ns)"

text \<open>\<^verbatim>\<open>n?.visible\<close> as a condition: \<^verbatim>\<open>undefined\<close> is falsy.\<close>

definition optVisible :: "Node option \<Rightarrow> bool" where
  "optVisible n = (case n of None \<Rightarrow> False | Some m \<Rightarrow> visible m)"

subsection \<open>Link filter and visibility (lines 66--123, 424--443)\<close>

definition isLinkVisible :: "string \<Rightarrow> Link \<Rightarrow> bool" where
  "isLinkVisible cf l =
     (cf = ''all''
      \<or> (cf = ''positive'' \<and> ge (link_value l) (Num 0))
      \<or> (cf = ''negative'' \<and> lt (link_value l) (Num 0)))"

text \<open>Lines 435--442: the \<^verbatim>\<open>display\<close> style of the line of link \<open>d\<close>.\<close>

definition linkDisplay :: "string \<Rightarrow> Node list \<Rightarrow> Link \<Rightarrow> string" where
  "linkDisplay cf ns d =
     (let sourceId = endpointId (deref ns (source d));
          targetId = endpointId (deref ns (target d));
          sourceVisible = optVisible (find (\<lambda>n. node_id n = sourceId) ns);
          targetVisible = optVisible (find (\<lambda>n. node_id n = targetId) ns)
      in if \<not> sourceVisible \<or> \<not> targetVisible then ''none''
         else if isLinkVisible cf d then ''inline'' else ''none'')"

definition visibleOpacity :: "Node \<Rightarrow> number" where
  "visibleOpacity n = (if visible n then highlightOpacity config else fadedOpacity config)"

text \<open>
  The second effect (lines 424--443).  It runs after every change of \<^verbatim>\<open>nodesArray\<close>,
  \<^verbatim>\<open>linksArray\<close>, \<^verbatim>\<open>simulation\<close> or \<^verbatim>\<open>currentFilter\<close>; its guard (line 425)
  holds from the first run of the main effect on, which sets \<^verbatim>\<open>simulation\<close>.
\<close>

definition visibilityEffect :: "GraphState \<Rightarrow> GraphState" where
  "visibilityEffect st = st\<lparr>
     nodeElements := map (\<lambda>(d, el). el\<lparr>opacity := Some (visibleOpacity d)\<rparr>)
                       (zip (nodesArray st) (nodeElements st)),
     labelElements := map (\<lambda>(d, el). el\<lparr>label_opacity := Some (visibleOpacity d)\<rparr>)
                       (zip (nodesArray st) (labelElements st)),
     linkElements := map (\<lambda>(d, el). el\<lparr>display := Some (linkDisplay (currentFilter st) (nodesArray st) d)\<rparr>)
                       (zip (linksArray st) (linkElements st)) \<rparr>"

text \<open>
  Lines 81--85: the legend entry of node object \<open>i\<close> is clicked.  The handler flips
  the flag of the object; the new \<^verbatim>\<open>nodesArray\<close> then triggers the second effect.
\<close>

definition updateNodeVisibility :: "nat \<Rightarrow> GraphState \<Rightarrow> GraphState" where
  "updateNodeVisibility i st =
     st\<lparr>nodesArray := (nodesArray st)[i := (nodesArray st ! i)\<lparr>visible := \<not> visible (nodesArray st ! i)\<rparr>]\<rparr>"

text \<open>The click as a whole: the handler, then the effect.\<close>

definition toggleVisibility :: "nat \<Rightarrow> GraphState \<Rightarrow> GraphState" where
  "toggleVisibility i st = visibilityEffect (updateNodeVisibility i st)"

text \<open>Lines 89--123.\<close>

definition selectAll :: "GraphState \<Rightarrow> GraphState" where
  "selectAll st = visibilityEffect (st\<lparr>nodesArray := map (\<lambda>d. d\<lparr>visible := True\<rparr>) (nodesArray st)\<rparr>)"

definition selectNone :: "GraphState \<Rightarrow> GraphState" where
  "selectNone st = visibilityEffect (st\<lparr>nodesArray := map (\<lambda>d. d\<lparr>visible := False\<rparr>) (nodesArray st)\<rparr>)"

subsection \<open>The main effect (lines 150--421)\<close>

definition newLinkElement :: "Link list \<Rightarrow> Link \<Rightarrow> LinkElement" where
  "newLinkElement ls d = \<lparr>
     classes = (if lt (link_value d) (Num 0) then {''link'', ''negative''} else {''link''}),
     stroke_width = linkScale ls (Math_abs (link_value d)),
     stroke_opacity = None, stroke = None, display = None \<rparr>"

definition newNodeElement :: "Node list \<Rightarrow> Node \<Rightarrow> NodeElement" where
  "newNodeElement ns d = \<lparr>
     attr_r = sizeScale ns (node_value d), fill = colorScale ns (group d), opacity = None \<rparr>"

definition newLabelElement :: "Node list \<Rightarrow> Node \<Rightarrow> LabelElement" where
  "newLabelElement ns d = \<lparr>
     label_text = originalName d,
     dx = add (toNumber (sizeScale ns (node_value d))) (labelOffset config),
     dy = divide_number (toNumber (sizeScale ns (node_value d))) (Num 2),
     label_opacity = None \<rparr>"

text \<open>
  One run of the main effect for the given props and filter: nodes and links are
  built, the simulation is created over them (which places the nodes and resolves
  the link endpoints), and the elements are drawn.  \<open>gen\<close> numbers the simulation;
  the simulations of earlier runs are recorded by the caller.
\<close>

definition mainEffect ::
  "(string \<times> number) list \<Rightarrow> EdgeData list \<Rightarrow> string \<Rightarrow> nat \<Rightarrow> error + GraphState" where
  "mainEffect nodeData edgeData cf gen =
     (let nodes = buildNodes nodeData;
          links = buildLinks nodes edgeData;
          nodes' = initializeNodes nodes
      in case forceLink_initialize nodes' links of
           Inl e \<Rightarrow> Inl e
         | Inr links' \<Rightarrow> Inr \<lparr>
             props_nodeData = nodeData, props_edgeData = edgeData, currentFilter = cf,
             nodesArray = nodes', linksArray = links',
             simulation = forceSimulation, generation = gen, superseded = [],
             linkElements = map (newLinkElement links') links',
             nodeElements = map (newNodeElement nodes') nodes',
             labelElements = map (newLabelElement nodes') nodes' \<rparr>)"

text \<open>
  Mounting: the filter starts as \<^verbatim>\<open>'all'\<close>, the main effect runs, and the state it
  sets makes the second effect run.
\<close>

definition mount :: "(string \<times> number) list \<Rightarrow> EdgeData list \<Rightarrow> error + GraphState" where
  "mount nodeData edgeData =
     (case mainEffect nodeData edgeData ''all'' 1 of
        Inl e \<Rightarrow> Inl e | Inr st \<Rightarrow> Inr (visibilityEffect st))"

text \<open>
  Lines 142--144: \<^verbatim>\<open>setCurrentFilter(mode)\<close>.  React keeps the state when the new
  value is the old one.  Otherwise \<^verbatim>\<open>isLinkVisible\<close>, memoised on \<^verbatim>\<open>currentFilter\<close>
  (line 74), is a new function; it is a dependency of the main effect (line 421),
  so the effect's cleanup stops the simulation (line 419) and the effect runs again;
  the state it sets then makes the second effect run.  The stopped simulation is
  no longer the component's: it joins the superseded ones.
\<close>

definition setCurrentFilter :: "string \<Rightarrow> GraphState \<Rightarrow> error + GraphState" where
  "setCurrentFilter mode st =
     (if mode = currentFilter st then Inr st
      else let stopped = stop (simulation st)
           in case mainEffect (props_nodeData st) (props_edgeData st) mode (Suc (generation st)) of
                Inl e \<Rightarrow> Inl e
              | Inr st' \<Rightarrow>
                  Inr (visibilityEffect (st'\<lparr>superseded := superseded st @ [stopped]\<rparr>)))"

definition showNegativeLinks :: "GraphState \<Rightarrow> error + GraphState" where
  "showNegativeLinks = setCurrentFilter ''negative''"

definition showPositiveLinks :: "GraphState \<Rightarrow> error + GraphState" where
  "showPositiveLinks = setCurrentFilter ''positive''"

definition resetView :: "GraphState \<Rightarrow> error + GraphState" where
  "resetView = setCurrentFilter ''all''"

subsection \<open>Tick (lines 267--280)\<close>

text \<open>The coordinates the tick handler writes to the line of a link and to a node.\<close>

definition tickLine :: "Node list \<Rightarrow> Link \<Rightarrow> (number \<times> number) \<times> (number \<times> number)" where
  "tickLine ns d =
     ((getNodeX (deref ns (source d)), getNodeY (deref ns (source d))),
      (getNodeX (deref ns (target d)), getNodeY (deref ns (target d))))"

definition tickNode :: "Node \<Rightarrow> number \<times> number" where
  "tickNode d = ((case node_x d of Some c \<Rightarrow> c | None \<Rightarrow> Num 0),
                 (case node_y d of Some c \<Rightarrow> c | None \<Rightarrow> Num 0))"

subsection \<open>Drag (lines 291--315)\<close>

record DragEvent =
  active :: nat
  event_x :: number
  event_y :: number

definition toNullable :: "number option \<Rightarrow> number nullable" where
  "toNullable v = (case v of None \<Rightarrow> Undefined | Some c \<Rightarrow> Value c)"

definition dragstarted :: "DragEvent \<Rightarrow> nat \<Rightarrow> GraphState \<Rightarrow> GraphState" where
  "dragstarted event i st =
     (let st1 = (if active event = 0
                 then st\<lparr>simulation := (simulation st)\<lparr>alphaTarget := simulationAlpha config,
                                                        running := True\<rparr>\<rparr>
                 else st);
          d = nodesArray st ! i
      in st1\<lparr>nodesArray := (nodesArray st)[i := d\<lparr>fx := toNullable (node_x d),
                                                   fy := toNullable (node_y d)\<rparr>]\<rparr>)"

definition dragged :: "DragEvent \<Rightarrow> nat \<Rightarrow> GraphState \<Rightarrow> GraphState" where
  "dragged event i st =
     st\<lparr>nodesArray := (nodesArray st)[i := (nodesArray st ! i)\<lparr>fx := Value (event_x event),
                                                               fy := Value (event_y event)\<rparr>]\<rparr>"

definition dragended :: "DragEvent \<Rightarrow> nat \<Rightarrow> GraphState \<Rightarrow> GraphState" where
  "dragended event i st =
     (let st1 = (if active event = 0
                 then st\<lparr>simulation := (simulation st)\<lparr>alphaTarget := Num 0\<rparr>\<rparr>
                 else st)
      in st1\<lparr>nodesArray := (nodesArray st)[i := (nodesArray st ! i)\<lparr>fx := Null, fy := Null\<rparr>]\<rparr>)"

subsection \<open>Hover (lines 318--404)\<close>

text \<open>Lines 326--344: the two sets the loop over the links fills.\<close>

definition connectStep ::
  "string \<Rightarrow> Node list \<Rightarrow> Node \<Rightarrow> nat \<times> Link \<Rightarrow> string set \<times> nat set \<Rightarrow> string set \<times> nat set" where
  "connectStep cf ns d = (\<lambda>(index, l) (connectedNodeIds, connectedLinkIndices).
     let sourceNode = endpointNode ns (deref ns (source l));
         targetNode = endpointNode ns (deref ns (target l))
     in if ((map_option node_id sourceNode = Some (node_id d) \<and> optVisible targetNode)
            \<or> (map_option node_id targetNode = Some (node_id d) \<and> optVisible sourceNode))
           \<and> isLinkVisible cf l
        then (connectedNodeIds \<union> set_option (map_option node_id sourceNode)
                \<union> set_option (map_option node_id targetNode),
              insert index connectedLinkIndices)
        else (connectedNodeIds, connectedLinkIndices))"

definition connected :: "string \<Rightarrow> Node list \<Rightarrow> Link list \<Rightarrow> Node \<Rightarrow> string set \<times> nat set" where
  "connected cf ns ls d = fold (connectStep cf ns d) (enumerate 0 ls) ({node_id d}, {})"

definition classed :: "string \<Rightarrow> bool \<Rightarrow> string set \<Rightarrow> string set" where
  "classed name on cs = (if on then insert name cs else cs - {name})"

definition highlightConnectedNodes :: "nat \<Rightarrow> GraphState \<Rightarrow> GraphState" where
  "highlightConnectedNodes i st =
     (let d = nodesArray st ! i in
      if \<not> visible d then st
      else
        let nodeColor = colorScale (nodesArray st) (group d);
            sets = connected (currentFilter st) (nodesArray st) (linksArray st) d;
            connectedNodeIds = fst sets;
            connectedLinkIndices = snd sets;
            shade = (\<lambda>n. if \<not> visible n then fadedOpacity config
                          else if node_id n \<in> connectedNodeIds then highlightOpacity config
                          else fadedOpacity config)
        in st\<lparr>
          linkElements := map (\<lambda>(j, el). el\<lparr>
              classes := classed ''highlighted'' (j \<in> connectedLinkIndices)
                           (classed ''faded-link'' (j \<notin> connectedLinkIndices) (classes el)),
              stroke := (if j \<in> connectedLinkIndices then Some nodeColor else None),
              stroke_opacity := Some (if j \<in> connectedLinkIndices then highlightOpacity config
                                      else fadedOpacity config)\<rparr>)
            (enumerate 0 (linkElements st)),
          nodeElements := map (\<lambda>(n, el). el\<lparr>opacity := Some (shade n)\<rparr>)
                            (zip (nodesArray st) (nodeElements st)),
          labelElements := map (\<lambda>(n, el). el\<lparr>label_opacity := Some (shade n)\<rparr>)
                            (zip (nodesArray st) (labelElements st)) \<rparr>)"

definition resetHighlightedNodes :: "GraphState \<Rightarrow> GraphState" where
  "resetHighlightedNodes st = st\<lparr>
     linkElements := map (\<lambda>el. el\<lparr>
         classes := classed ''faded'' False (classed ''highlighted'' False (classes el)),
         stroke := None,
         stroke_opacity := Some (defaultLinkOpacity config)\<rparr>) (linkElements st),
     nodeElements := map (\<lambda>(n, el). el\<lparr>opacity := Some (visibleOpacity n)\<rparr>)
                       (zip (nodesArray st) (nodeElements st)),
     labelElements := map (\<lambda>(n, el). el\<lparr>label_opacity := Some (visibleOpacity n)\<rparr>)
                       (zip (nodesArray st) (labelElements st)) \<rparr>"

text \<open>Lines 377--398: the line of link \<open>j\<close> is hovered.\<close>

definition highlightLink :: "nat \<Rightarrow> GraphState \<Rightarrow> GraphState" where
  "highlightLink j st =
     (let d = linksArray st ! j;
          sourceId = endpointId (deref (nodesArray st) (source d));
          targetId = endpointId (deref (nodesArray st) (target d));
          shade = (\<lambda>n. if \<not> visible n then fadedOpacity config
                        else if node_id n = sourceId \<or> node_id n = targetId
                             then highlightOpacity config
                        else fadedOpacity config)
      in st\<lparr>
        linkElements := map (\<lambda>(k, el).
            if k = j
            then el\<lparr>stroke_opacity := Some (Num 1),
                    stroke_width := Some (mul (toNumber (linkScale (linksArray st)
                                                (Math_abs (link_value d)))) (Num (3/2)))\<rparr>
            else el\<lparr>stroke_opacity := Some (fadedOpacity config)\<rparr>)
          (enumerate 0 (linkElements st)),
        nodeElements := map (\<lambda>(n, el). el\<lparr>opacity := Some (shade n)\<rparr>)
                          (zip (nodesArray st) (nodeElements st)),
        labelElements := map (\<lambda>(n, el). el\<lparr>label_opacity := Some (shade n)\<rparr>)
                          (zip (nodesArray st) (labelElements st)) \<rparr>)"

definition resetLinkHighlight :: "GraphState \<Rightarrow> GraphState" where
  "resetLinkHighlight st = st\<lparr>
     linkElements := map (\<lambda>el. el\<lparr>stroke_opacity := Some (defaultLinkOpacity config)\<rparr>)
                       (linkElements st),
     nodeElements := map (\<lambda>(n, el). el\<lparr>opacity := Some (visibleOpacity n)\<rparr>)
                       (zip (nodesArray st) (nodeElements st)),
     labelElements := map (\<lambda>(n, el). el\<lparr>label_opacity := Some (visibleOpacity n)\<rparr>)
                       (zip (nodesArray st) (labelElements st)) \<rparr>"

section \<open>The example application (App.tsx)\<close>

definition App_nodeData :: "(string \<times> number) list" where
  "App_nodeData = [(''Node 1'', Num 10), (''Node 2'', Num 20), (''Node 3'', Num 15),
     (''Node 4'', Num 25), (''Node 5'', Num 30)]"

definition App_edgeData :: "EdgeData list" where
  "App_edgeData = [
     \<lparr>edge_source = ''Node 1'', edge_target = ''Node 2'', edge_value = Num 1\<rparr>,
     \<lparr>edge_source = ''Node 1'', edge_target = ''Node 3'', edge_value = Num (- 2)\<rparr>,
     \<lparr>edge_source = ''Node 2'', edge_target = ''Node 4'', edge_value = Num 3\<rparr>,
     \<lparr>edge_source = ''Node 3'', edge_target = ''Node 5'', edge_value = Num 4\<rparr>,
     \<lparr>edge_source = ''Node 4'', edge_target = ''Node 5'', edge_value = Num (- 5)\<rparr>]"

section \<open>Notions used to state the properties\<close>

text \<open>
  The invariant of the states the component reaches: node ids are distinct, every
  link endpoint is the id of a node or a reference to a node object of the graph,
  and there is one element per datum.
\<close>

definition endpointOK :: "Node list \<Rightarrow> endpoint \<Rightarrow> bool" where
  "endpointOK ns e =
     (case e of NodeRef i \<Rightarrow> i < length ns | NodeId s \<Rightarrow> s \<in> set (map node_id ns))"

definition wellFormed :: "GraphState \<Rightarrow> bool" where
  "wellFormed st =
     (distinct (map node_id (nodesArray st))
      \<and> list_all (\<lambda>l. endpointOK (nodesArray st) (source l) \<and> endpointOK (nodesArray st) (target l))
           (linksArray st)
      \<and> length (linkElements st) = length (linksArray st)
      \<and> length (nodeElements st) = length (nodesArray st)
      \<and> length (labelElements st) = length (nodesArray st))"






text \<open>
  What resolving does to a link: the value is kept, and each end becomes a reference
  to a node with the id the end had.
\<close>

definition resolvedFrom :: "Node list \<Rightarrow> Link \<Rightarrow> Link \<Rightarrow> bool" where
  "resolvedFrom ns l l' =
     (link_value l' = link_value l
      \<and> (\<exists>i j. source l' = NodeRef i \<and> target l' = NodeRef j \<and> i < length ns \<and> j < length ns
            \<and> node_id (ns ! i) = endpointId (deref ns (source l))
            \<and> node_id (ns ! j) = endpointId (deref ns (target l))))"

text \<open>The state of the example application once mounted.\<close>

definition App_state :: GraphState where
  "App_state = projr (mount App_nodeData App_edgeData)"

subsection \<open>Reachable states\<close>

text \<open>
  A tick of the simulation moves the nodes.  The forces are d3's and outside the
  model, so a tick is modelled with the new coordinates as a parameter.
\<close>

definition simulationTick :: "(number \<times> number) list \<Rightarrow> GraphState \<Rightarrow> GraphState" where
  "simulationTick ps st = st\<lparr>nodesArray :=
     map (\<lambda>(n, p). n\<lparr>node_x := Some (fst p), node_y := Some (snd p)\<rparr>) (zip (nodesArray st) ps)\<rparr>"

text \<open>
  The states of a component: it is mounted on a map and an edge list, and then its
  handlers run, each on an element that exists.
\<close>

inductive reachable :: "GraphState \<Rightarrow> bool" where
  mounted: "distinct (map fst nodeData) \<Longrightarrow> mount nodeData edgeData = Inr st \<Longrightarrow> reachable st"
| ticked: "reachable st \<Longrightarrow> length ps = length (nodesArray st) \<Longrightarrow> reachable (simulationTick ps st)"
| legend_clicked: "reachable st \<Longrightarrow> i < length (nodesArray st) \<Longrightarrow> reachable (toggleVisibility i st)"
| all_selected: "reachable st \<Longrightarrow> reachable (selectAll st)"
| none_selected: "reachable st \<Longrightarrow> reachable (selectNone st)"
| filter_set: "reachable st \<Longrightarrow> mode \<in> {''all'', ''positive'', ''negative''} \<Longrightarrow>
     setCurrentFilter mode st = Inr st' \<Longrightarrow> reachable st'"
| drag_started: "reachable st \<Longrightarrow> i < length (nodesArray st) \<Longrightarrow> reachable (dragstarted event i st)"
| drag_moved: "reachable st \<Longrightarrow> i < length (nodesArray st) \<Longrightarrow> reachable (dragged event i st)"
| drag_ended: "reachable st \<Longrightarrow> i < length (nodesArray st) \<Longrightarrow> reachable (dragended event i st)"
| node_hovered: "reachable st \<Longrightarrow> i < length (nodesArray st) \<Longrightarrow>
     reachable (highlightConnectedNodes i st)"
| node_left: "reachable st \<Longrightarrow> reachable (resetHighlightedNodes st)"
| link_hovered: "reachable st \<Longrightarrow> j < length (linksArray st) \<Longrightarrow> reachable (highlightLink j st)"
| link_left: "reachable st \<Longrightarrow> reachable (resetLinkHighlight st)"

text \<open>The line of every link has the display style the second effect computes.\<close>

definition displayed :: "GraphState \<Rightarrow> bool" where
  "displayed st =
     (map display (linkElements st)
        = map (\<lambda>l. Some (linkDisplay (currentFilter st) (nodesArray st) l)) (linksArray st))"

text \<open>
  The nodes and links of a state are those of its props: ids and values as in the
  map, links as the link force resolves the kept edges.
\<close>

definition fromProps :: "GraphState \<Rightarrow> bool" where
  "fromProps st =
     (map node_id (nodesArray st) = map fst (Object_entries (props_nodeData st))
      \<and> map node_value (nodesArray st) = map snd (Object_entries (props_nodeData st))
      \<and> forceLink_initialize (nodesArray st)
            (buildLinks (buildNodes (props_nodeData st)) (props_edgeData st))
          = Inr (linksArray st))"

text \<open>
  The example application after the legend entry of its first node was clicked and
  a tick has moved every node (here: to the origin).
\<close>

definition App_hidden_ticked :: GraphState where
  "App_hidden_ticked =
     simulationTick [(Num 0, Num 0), (Num 0, Num 0), (Num 0, Num 0), (Num 0, Num 0), (Num 0, Num 0)]
       (toggleVisibility 0 App_state)"

subsection \<open>Link renderability in the words of the specification\<close>





section \<open>Verification\<close>

subsection \<open>Model construction\<close>

lemma set_Object_entries: "set (Object_entries obj) = set obj"
  by (auto simp: Object_entries_def)

lemma mset_Object_entries: "mset (Object_entries obj) = mset obj"
  by (simp add: Object_entries_def)

lemma Object_entries_no_index:
  assumes "list_all (\<lambda>(k, v). \<not> is_array_index k) obj"
  shows "Object_entries obj = obj"
proof -
  have 1: "filter (\<lambda>(k, v). is_array_index k) obj = []"
    using assms by (auto simp: list_all_iff filter_empty_conv)
  have 2: "filter (\<lambda>(k, v). \<not> is_array_index k) obj = obj"
    using assms by (auto simp: list_all_iff intro: filter_True)
  show ?thesis by (simp add: Object_entries_def 1 2)
qed

lemma buildNodes_id: "map node_id (buildNodes nd) = map fst (Object_entries nd)"
  by (simp add: buildNodes_def newNode_def case_prod_beta comp_def)

lemma buildNodes_value: "map node_value (buildNodes nd) = map snd (Object_entries nd)"
  by (simp add: buildNodes_def newNode_def case_prod_beta comp_def)

lemma buildNodes_visible: "list_all visible (buildNodes nd)"
  by (simp add: buildNodes_def newNode_def list_all_iff case_prod_beta)

lemma list_ex_id: "list_ex (\<lambda>n. node_id n = s) ns = (s \<in> set (map node_id ns))"
  by (auto simp: list_ex_iff)

lemma buildLinks_eq:
  "buildLinks (buildNodes nd) ed =
     map newLink (filter (\<lambda>d. edge_source d \<in> fst ` set nd \<and> edge_target d \<in> fst ` set nd) ed)"
  by (simp add: buildLinks_def list_ex_id buildNodes_id set_Object_entries)

subsection \<open>Visibility toggling\<close>

lemma nodesArray_visibilityEffect: "nodesArray (visibilityEffect st) = nodesArray st"
  by (simp add: visibilityEffect_def)

text \<open>
  C8.  Clicking the legend entry of a node twice restores the \<^verbatim>\<open>visible\<close> flag of
  every node: the handler \<^verbatim>\<open>updateNodeVisibility\<close> applied twice to the same node
  object gives back the state it started from, and with the effect that follows
  each click the node objects are again what they were.
\<close>

theorem C8_double_toggle:
  "updateNodeVisibility i (updateNodeVisibility i st) = st
   \<and> nodesArray (toggleVisibility i (toggleVisibility i st)) = nodesArray st
   \<and> map visible (nodesArray (toggleVisibility i (toggleVisibility i st)))
       = map visible (nodesArray st)"
proof -
  have 1: "updateNodeVisibility i (updateNodeVisibility i st) = st" for st
    by (cases "i < length (nodesArray st)")
       (simp_all add: updateNodeVisibility_def list_update_beyond)
  have 2: "nodesArray (updateNodeVisibility i (visibilityEffect s))
             = nodesArray (updateNodeVisibility i s)" for s
    by (simp add: updateNodeVisibility_def visibilityEffect_def)
  have "nodesArray (toggleVisibility i (toggleVisibility i st))
          = nodesArray (updateNodeVisibility i (updateNodeVisibility i st))"
    by (simp add: toggleVisibility_def nodesArray_visibilityEffect 2)
  with 1 show ?thesis by simp
qed

subsection \<open>Endpoint coordinates\<close>

text \<open>
  C10.  \<^verbatim>\<open>getNodeX\<close> and \<^verbatim>\<open>getNodeY\<close> are total: on an id that is still a string they
  return 0, on a node object they return its coordinate, or 0 when the coordinate is
  undefined; so the tick handler gives a line with unresolved ends the coordinates
  0, and a line with resolved ends the coordinates it gives the nodes themselves.
\<close>

theorem C10_endpoint_coordinates_total:
  "getNodeX (Str s) = Num 0 \<and> getNodeY (Str s) = Num 0
   \<and> getNodeX (Obj (n\<lparr>node_x := Some c\<rparr>)) = c \<and> getNodeY (Obj (n\<lparr>node_y := Some c\<rparr>)) = c
   \<and> getNodeX (Obj (n\<lparr>node_x := None\<rparr>)) = Num 0 \<and> getNodeY (Obj (n\<lparr>node_y := None\<rparr>)) = Num 0
   \<and> tickLine ns \<lparr>source = NodeId s, target = NodeId t, link_value = v\<rparr>
       = ((Num 0, Num 0), (Num 0, Num 0))
   \<and> tickLine ns \<lparr>source = NodeRef i, target = NodeRef j, link_value = v\<rparr>
       = (tickNode (ns ! i), tickNode (ns ! j))"
  by (simp add: getNodeX_def getNodeY_def tickLine_def deref_def tickNode_def)

subsection \<open>The main effect succeeds and establishes the invariant\<close>

lemma initializeNode_fields:
  "node_id (initializeNode i n) = node_id n" "node_value (initializeNode i n) = node_value n"
  "visible (initializeNode i n) = visible n" "group (initializeNode i n) = group n"
  "originalName (initializeNode i n) = originalName n"
  by (simp_all add: initializeNode_def Let_def split: nullable.splits)

lemma length_initializeNodes: "length (initializeNodes ns) = length ns"
  by (simp add: initializeNodes_def)

lemma nth_initializeNodes:
  "i < length ns \<Longrightarrow> initializeNodes ns ! i = initializeNode i (ns ! i)"
  by (simp add: initializeNodes_def)

lemma initializeNodes_fields:
  "map node_id (initializeNodes ns) = map node_id ns"
  "map node_value (initializeNodes ns) = map node_value ns"
  "map visible (initializeNodes ns) = map visible ns"
  "map group (initializeNodes ns) = map group ns"
  by (rule nth_equalityI; simp add: length_initializeNodes nth_initializeNodes initializeNode_fields)+

lemma nodeById_found:
  assumes "s \<in> set (map node_id ns)"
  shows "\<exists>i. nodeById ns s = Some i \<and> i < length ns \<and> node_id (ns ! i) = s"
proof -
  let ?ps = "rev (zip (map node_id ns) [0..<length ns])"
  have "map fst (zip (map node_id ns) [0..<length ns]) = map node_id ns" by simp
  then have "fst ` set (zip (map node_id ns) [0..<length ns]) = set (map node_id ns)"
    by (metis set_map)
  then have "s \<in> fst ` set ?ps" using assms by simp
  then obtain i where i: "map_of ?ps s = Some i"
    by (cases "map_of ?ps s") (auto simp: map_of_eq_None_iff)
  then have "(s, i) \<in> set (zip (map node_id ns) [0..<length ns])"
    by (auto dest: map_of_SomeD)
  then have "i < length ns \<and> node_id (ns ! i) = s"
    by (auto simp: in_set_zip)
  with i show ?thesis by (auto simp: nodeById_def)
qed

lemma find_endpoint_ok:
  assumes "endpointOK ns e"
  shows "\<exists>i. find_endpoint ns e = Inr (NodeRef i) \<and> i < length ns
     \<and> node_id (ns ! i) = endpointId (deref ns e)"
proof (cases e)
  case (NodeId s)
  with assms have "s \<in> set (map node_id ns)" by (simp add: endpointOK_def)
  from nodeById_found[OF this] NodeId show ?thesis
    by (auto simp: find_endpoint_def endpointId_def deref_def)
next
  case (NodeRef i)
  with assms show ?thesis by (simp add: find_endpoint_def endpointOK_def endpointId_def deref_def)
qed

lemma forceLink_initialize_ok:
  assumes "list_all (\<lambda>l. endpointOK ns (source l) \<and> endpointOK ns (target l)) ls"
  shows "\<exists>ls'. forceLink_initialize ns ls = Inr ls' \<and> list_all2 (resolvedFrom ns) ls ls'"
  using assms
proof (induction ls)
  case Nil
  then show ?case by simp
next
  case (Cons l ls)
  then obtain ls' where ls': "forceLink_initialize ns ls = Inr ls'" "list_all2 (resolvedFrom ns) ls ls'"
    by auto
  from Cons.prems obtain i where i: "find_endpoint ns (source l) = Inr (NodeRef i)" "i < length ns"
      "node_id (ns ! i) = endpointId (deref ns (source l))"
    using find_endpoint_ok[of ns "source l"] by auto
  from Cons.prems obtain j where j: "find_endpoint ns (target l) = Inr (NodeRef j)" "j < length ns"
      "node_id (ns ! j) = endpointId (deref ns (target l))"
    using find_endpoint_ok[of ns "target l"] by auto
  have "resolvedFrom ns l (l\<lparr>source := NodeRef i, target := NodeRef j\<rparr>)"
    using i j by (simp add: resolvedFrom_def)
  then show ?case using ls' i j by simp
qed

lemma endpointOK_cong:
  "map node_id ns' = map node_id ns \<Longrightarrow> endpointOK ns' e = endpointOK ns e"
  by (cases e) (auto simp: endpointOK_def dest: arg_cong[where f=length] arg_cong[where f=set])

lemma buildLinks_endpointOK:
  "list_all (\<lambda>l. endpointOK ns (source l) \<and> endpointOK ns (target l)) (buildLinks ns ed)"
  by (force simp: buildLinks_def list_all_iff newLink_def endpointOK_def list_ex_iff)

lemma mainEffect_ok:
  "\<exists>ls'. forceLink_initialize (initializeNodes (buildNodes nd))
            (buildLinks (buildNodes nd) ed) = Inr ls'
     \<and> list_all2 (resolvedFrom (initializeNodes (buildNodes nd))) (buildLinks (buildNodes nd) ed) ls'"
proof -
  have "list_all (\<lambda>l. endpointOK (initializeNodes (buildNodes nd)) (source l)
                     \<and> endpointOK (initializeNodes (buildNodes nd)) (target l))
          (buildLinks (buildNodes nd) ed)"
    using buildLinks_endpointOK[of "buildNodes nd" ed]
    by (simp add: endpointOK_cong[OF initializeNodes_fields(1)])
  from forceLink_initialize_ok[OF this] show ?thesis .
qed

lemma mainEffect_Inr:
  "\<exists>st. mainEffect nd ed cf gen = Inr st
     \<and> props_nodeData st = nd \<and> props_edgeData st = ed \<and> currentFilter st = cf
     \<and> generation st = gen \<and> simulation st = forceSimulation
     \<and> nodesArray st = initializeNodes (buildNodes nd)
     \<and> list_all2 (resolvedFrom (nodesArray st)) (buildLinks (buildNodes nd) ed) (linksArray st)
     \<and> linkElements st = map (newLinkElement (linksArray st)) (linksArray st)
     \<and> nodeElements st = map (newNodeElement (nodesArray st)) (nodesArray st)
     \<and> labelElements st = map (newLabelElement (nodesArray st)) (nodesArray st)"
proof -
  from mainEffect_ok[of nd ed] obtain ls' where
    "forceLink_initialize (initializeNodes (buildNodes nd)) (buildLinks (buildNodes nd) ed) = Inr ls'"
    "list_all2 (resolvedFrom (initializeNodes (buildNodes nd))) (buildLinks (buildNodes nd) ed) ls'"
    by blast
  then show ?thesis by (simp add: mainEffect_def Let_def)
qed

lemma resolvedFrom_endpointOK:
  "list_all2 (resolvedFrom ns) ls ls' \<Longrightarrow>
   list_all (\<lambda>l. endpointOK ns (source l) \<and> endpointOK ns (target l)) ls'"
  by (induction rule: list_all2_induct) (auto simp: resolvedFrom_def endpointOK_def)

lemma distinct_Object_entries:
  assumes "distinct (map fst nd)"
  shows "distinct (map fst (Object_entries nd))"
proof -
  from assms have "distinct nd" "inj_on fst (set nd)" by (simp_all add: distinct_map)
  moreover have "distinct (Object_entries nd) = distinct nd"
    by (rule mset_eq_imp_distinct_iff) (rule mset_Object_entries)
  ultimately show ?thesis by (simp add: distinct_map set_Object_entries)
qed

lemma wellFormed_mainEffect:
  assumes "distinct (map fst nd)" and "mainEffect nd ed cf gen = Inr st"
  shows "wellFormed st"
proof -
  from mainEffect_Inr[of nd ed cf gen] assms(2) have
    n: "nodesArray st = initializeNodes (buildNodes nd)" and
    l: "list_all2 (resolvedFrom (nodesArray st)) (buildLinks (buildNodes nd) ed) (linksArray st)" and
    e: "linkElements st = map (newLinkElement (linksArray st)) (linksArray st)"
       "nodeElements st = map (newNodeElement (nodesArray st)) (nodesArray st)"
       "labelElements st = map (newLabelElement (nodesArray st)) (nodesArray st)"
    by auto
  have "distinct (map node_id (nodesArray st))"
    using assms(1) by (simp add: n initializeNodes_fields buildNodes_id distinct_Object_entries)
  moreover note resolvedFrom_endpointOK[OF l]
  ultimately show ?thesis using e by (simp add: wellFormed_def)
qed

lemma wellFormed_visibilityEffect: "wellFormed st \<Longrightarrow> wellFormed (visibilityEffect st)"
  unfolding wellFormed_def visibilityEffect_def by simp

subsection \<open>Link display\<close>




lemma display_visibilityEffect:
  assumes "length (linkElements st) = length (linksArray st)" "j < length (linksArray st)"
  shows "display (linkElements (visibilityEffect st) ! j)
          = Some (linkDisplay (currentFilter st) (nodesArray st) (linksArray st ! j))"
  using assms by (simp add: visibilityEffect_def)

lemma map_update_same: "f y = f (xs ! i) \<Longrightarrow> map f (xs[i := y]) = map f xs"
  by (cases "i < length xs") (simp_all add: map_update list_update_same_conv list_update_beyond)

lemma wellFormed_nodes_update:
  assumes "wellFormed st" "node_id d = node_id (nodesArray st ! i)"
  shows "wellFormed (st\<lparr>nodesArray := (nodesArray st)[i := d]\<rparr>)"
proof -
  have "map node_id ((nodesArray st)[i := d]) = map node_id (nodesArray st)"
    using assms(2) by (rule map_update_same)
  then show ?thesis using assms(1)
    by (simp add: wellFormed_def endpointOK_def split: endpoint.splits)
qed

lemma wellFormed_updateNodeVisibility: "wellFormed st \<Longrightarrow> wellFormed (updateNodeVisibility i st)"
  unfolding updateNodeVisibility_def by (rule wellFormed_nodes_update) simp_all


subsection \<open>The example application\<close>

lemmas eval_simps =
  mount_def mainEffect_def App_nodeData_def App_edgeData_def buildNodes_def Object_entries_def
  is_array_index_def newNode_def buildLinks_def newLink_def initializeNodes_def
  initializeNode_def Let_def defined_number_def find_endpoint_def nodeById_def
  visibilityEffect_def linkDisplay_def endpointId_def deref_def optVisible_def
  isLinkVisible_def

lemma mount_App: "mount App_nodeData App_edgeData = Inr App_state"
proof -
  from mainEffect_Inr[of App_nodeData App_edgeData "''all''" 1]
  obtain st where "mainEffect App_nodeData App_edgeData ''all'' 1 = Inr st" by blast
  then show ?thesis by (simp add: App_state_def mount_def)
qed



lemma visibilityEffect_fields:
  "nodesArray (visibilityEffect st) = nodesArray st"
  "linksArray (visibilityEffect st) = linksArray st"
  "currentFilter (visibilityEffect st) = currentFilter st"
  "generation (visibilityEffect st) = generation st"
  "simulation (visibilityEffect st) = simulation st"
  "props_nodeData (visibilityEffect st) = props_nodeData st"
  "props_edgeData (visibilityEffect st) = props_edgeData st"
  "superseded (visibilityEffect st) = superseded st"
  by (simp_all add: visibilityEffect_def)

lemma visibilityEffect_superseded:
  "visibilityEffect (st\<lparr>superseded := sims\<rparr>) = (visibilityEffect st)\<lparr>superseded := sims\<rparr>"
  by (simp add: visibilityEffect_def)

lemma superseded_update:
  "wellFormed (st\<lparr>superseded := sims\<rparr>) = wellFormed st"
  "displayed (st\<lparr>superseded := sims\<rparr>) = displayed st"
  "fromProps (st\<lparr>superseded := sims\<rparr>) = fromProps st"
  by (simp_all add: wellFormed_def displayed_def fromProps_def)

lemma visibilityEffect_attrs:
  "length (nodeElements st) = length (nodesArray st) \<Longrightarrow>
     map attr_r (nodeElements (visibilityEffect st)) = map attr_r (nodeElements st)"
  "length (linkElements st) = length (linksArray st) \<Longrightarrow>
     map stroke_width (linkElements (visibilityEffect st)) = map stroke_width (linkElements st)"
  by (auto simp: visibilityEffect_def intro!: nth_equalityI)

lemma resolvedFrom_values:
  "list_all2 (resolvedFrom ns) ls ls' \<Longrightarrow> map link_value ls' = map link_value ls"
  by (induction rule: list_all2_induct) (auto simp: resolvedFrom_def)

lemma buildLinks_values:
  "map link_value (buildLinks (buildNodes nd) ed) =
     map edge_value (filter (\<lambda>d. edge_source d \<in> fst ` set nd \<and> edge_target d \<in> fst ` set nd) ed)"
  by (simp add: buildLinks_eq newLink_def comp_def)

lemma mount_Inr:
  "\<exists>st. mount nd ed = Inr st
     \<and> props_nodeData st = nd \<and> props_edgeData st = ed \<and> currentFilter st = ''all''
     \<and> generation st = 1 \<and> simulation st = forceSimulation
     \<and> nodesArray st = initializeNodes (buildNodes nd)
     \<and> list_all2 (resolvedFrom (nodesArray st)) (buildLinks (buildNodes nd) ed) (linksArray st)
     \<and> map attr_r (nodeElements st) = map (\<lambda>d. sizeScale (nodesArray st) (node_value d)) (nodesArray st)
     \<and> map stroke_width (linkElements st)
          = map (\<lambda>d. linkScale (linksArray st) (Math_abs (link_value d))) (linksArray st)"
proof -
  from mainEffect_Inr[of nd ed "''all''" 1] obtain st where
    st: "mainEffect nd ed ''all'' 1 = Inr st"
      "props_nodeData st = nd" "props_edgeData st = ed" "currentFilter st = ''all''"
      "generation st = 1" "simulation st = forceSimulation"
      "nodesArray st = initializeNodes (buildNodes nd)"
      "list_all2 (resolvedFrom (nodesArray st)) (buildLinks (buildNodes nd) ed) (linksArray st)"
      "linkElements st = map (newLinkElement (linksArray st)) (linksArray st)"
      "nodeElements st = map (newNodeElement (nodesArray st)) (nodesArray st)"
    by blast
  have "mount nd ed = Inr (visibilityEffect st)" using st(1) by (simp add: mount_def)
  moreover have "map attr_r (nodeElements (visibilityEffect st))
       = map (\<lambda>d. sizeScale (nodesArray st) (node_value d)) (nodesArray st)"
    by (subst visibilityEffect_attrs(1)) (simp_all add: st(10) newNodeElement_def comp_def)
  moreover have "map stroke_width (linkElements (visibilityEffect st))
       = map (\<lambda>d. linkScale (linksArray st) (Math_abs (link_value d))) (linksArray st)"
    by (subst visibilityEffect_attrs(2)) (simp_all add: st(9) newLinkElement_def comp_def)
  ultimately show ?thesis using st(2-8) by (simp add: visibilityEffect_fields)
qed

lemma Object_entries_rest:
  "filter (\<lambda>(k, v). \<not> is_array_index k) (Object_entries obj)
     = filter (\<lambda>(k, v). \<not> is_array_index k) obj"
  by (simp add: Object_entries_def case_prod_unfold)

subsection \<open>The claims on model construction and ingestion\<close>

text \<open>
  C1 (as amended).  Model construction produces one node per entry of \<^verbatim>\<open>nodeData\<close>,
  with the entry's key as id, its number as value and \<^verbatim>\<open>visible\<close> true, in the
  order of \<^verbatim>\<open>Object.entries\<close>: the entries are those of the map, the entries whose
  keys are not array indices keep their insertion order, and when no key is an array
  index the nodes are in insertion order.  It keeps, in their order, exactly the
  edges whose source and target are keys of \<^verbatim>\<open>nodeData\<close>.  It never fails: the
  main effect runs to its end for every input, the link force finding a node for
  every end of every kept edge; with no nodes there are no links, and with no
  edges there are none either.
\<close>

theorem C1_model_construction:
  "map node_id (buildNodes nodeData) = map fst (Object_entries nodeData)
   \<and> map node_value (buildNodes nodeData) = map snd (Object_entries nodeData)
   \<and> list_all visible (buildNodes nodeData)
   \<and> mset (Object_entries nodeData) = mset nodeData
   \<and> filter (\<lambda>(k, v). \<not> is_array_index k) (Object_entries nodeData)
        = filter (\<lambda>(k, v). \<not> is_array_index k) nodeData
   \<and> (list_all (\<lambda>(k, v). \<not> is_array_index k) nodeData
        \<longrightarrow> map node_id (buildNodes nodeData) = map fst nodeData)
   \<and> buildLinks (buildNodes nodeData) edgeData
        = map newLink (filter (\<lambda>d. edge_source d \<in> fst ` set nodeData
                                  \<and> edge_target d \<in> fst ` set nodeData) edgeData)
   \<and> (\<exists>st. mount nodeData edgeData = Inr st
          \<and> map node_id (nodesArray st) = map node_id (buildNodes nodeData)
          \<and> list_all2 (resolvedFrom (nodesArray st)) (buildLinks (buildNodes nodeData) edgeData)
               (linksArray st))
   \<and> buildNodes [] = [] \<and> buildLinks (buildNodes []) edgeData = []
   \<and> buildLinks (buildNodes nodeData) [] = []"
proof -
  have "list_all (\<lambda>(k, v). \<not> is_array_index k) nodeData
        \<longrightarrow> map node_id (buildNodes nodeData) = map fst nodeData"
    by (simp add: buildNodes_id Object_entries_no_index)
  moreover have "\<exists>st. mount nodeData edgeData = Inr st
          \<and> map node_id (nodesArray st) = map node_id (buildNodes nodeData)
          \<and> list_all2 (resolvedFrom (nodesArray st)) (buildLinks (buildNodes nodeData) edgeData)
               (linksArray st)"
    using mount_Inr[of nodeData edgeData] by (auto simp: initializeNodes_fields)
  moreover have "buildNodes [] = []" "buildLinks (buildNodes []) edgeData = []"
      "buildLinks (buildNodes nodeData) [] = []"
    by (simp_all add: buildNodes_def Object_entries_def buildLinks_def)
  ultimately show ?thesis
    using buildNodes_id buildNodes_value buildNodes_visible mset_Object_entries
      Object_entries_rest buildLinks_eq by blast
qed

theorem C1_model_construction_witness:
  "list_all (\<lambda>(k, v). \<not> is_array_index k) App_nodeData
   \<and> map node_id (buildNodes App_nodeData) = map fst App_nodeData
   \<and> map node_id (buildNodes App_nodeData)
       = [''Node 1'', ''Node 2'', ''Node 3'', ''Node 4'', ''Node 5'']"
proof -
  have a: "list_all (\<lambda>(k, v). \<not> is_array_index k) App_nodeData"
    by (simp add: App_nodeData_def is_array_index_def)
  from C1_model_construction[of App_nodeData App_edgeData] a
  have "map node_id (buildNodes App_nodeData) = map fst App_nodeData" by blast
  with a show ?thesis by (simp add: App_nodeData_def)
qed

text \<open>
  The claim as stated fails: a key that is an array index is enumerated before the
  keys inserted before it.
\<close>

theorem C1_insertion_order_counterexample:
  "map node_id (buildNodes [(''b'', Num 1), (''1'', Num 2)])
     \<noteq> map fst [(''b'', Num 1), (''1'', Num 2)]"
  by (simp add: buildNodes_def Object_entries_def is_array_index_def newNode_def dec_value_def)

text \<open>
  C4 (as amended).  Ingestion validates nothing and rejects nothing: for every input
  the component mounts, every node and link value, finite or not, is stored as it
  was given, and each is passed as it is to the size scale (the radius of the node)
  and, in absolute value, to the width scale (the stroke width of the link).
\<close>

theorem C4_no_validation:
  "\<exists>st. mount nodeData edgeData = Inr st
     \<and> map node_value (nodesArray st) = map snd (Object_entries nodeData)
     \<and> map link_value (linksArray st)
          = map edge_value (filter (\<lambda>d. edge_source d \<in> fst ` set nodeData
                                      \<and> edge_target d \<in> fst ` set nodeData) edgeData)
     \<and> map attr_r (nodeElements st)
          = map (sizeScale (nodesArray st)) (map snd (Object_entries nodeData))
     \<and> map stroke_width (linkElements st)
          = map (\<lambda>v. linkScale (linksArray st) (Math_abs v))
              (map edge_value (filter (\<lambda>d. edge_source d \<in> fst ` set nodeData
                                           \<and> edge_target d \<in> fst ` set nodeData) edgeData))"
proof -
  from mount_Inr[of nodeData edgeData] obtain st where
    st: "mount nodeData edgeData = Inr st"
      "nodesArray st = initializeNodes (buildNodes nodeData)"
      "list_all2 (resolvedFrom (nodesArray st)) (buildLinks (buildNodes nodeData) edgeData) (linksArray st)"
      "map attr_r (nodeElements st) = map (\<lambda>d. sizeScale (nodesArray st) (node_value d)) (nodesArray st)"
      "map stroke_width (linkElements st)
          = map (\<lambda>d. linkScale (linksArray st) (Math_abs (link_value d))) (linksArray st)"
    by blast
  have v: "map node_value (nodesArray st) = map snd (Object_entries nodeData)"
    by (simp add: st(2) initializeNodes_fields buildNodes_value)
  have l: "map link_value (linksArray st)
          = map edge_value (filter (\<lambda>d. edge_source d \<in> fst ` set nodeData
                                      \<and> edge_target d \<in> fst ` set nodeData) edgeData)"
    using resolvedFrom_values[OF st(3)] by (simp add: buildLinks_values)
  have "map (\<lambda>d. sizeScale (nodesArray st) (node_value d)) (nodesArray st)
          = map (sizeScale (nodesArray st)) (map node_value (nodesArray st))"
    by (simp add: comp_def)
  moreover have "map (\<lambda>d. linkScale (linksArray st) (Math_abs (link_value d))) (linksArray st)
          = map (\<lambda>v. linkScale (linksArray st) (Math_abs v)) (map link_value (linksArray st))"
    by (simp add: comp_def)
  ultimately show ?thesis using st(1,4,5) v l by (intro exI[of _ st]) simp
qed

text \<open>
  The claim as stated fails: NaN and the infinities are accepted and reach both
  scales.
\<close>

theorem C4_non_finite_accepted_counterexample:
  "\<exists>st. mount [(''A'', NaN), (''B'', PosInfinity)]
            [\<lparr>edge_source = ''A'', edge_target = ''B'', edge_value = NegInfinity\<rparr>] = Inr st
     \<and> map node_value (nodesArray st) = [NaN, PosInfinity]
     \<and> map link_value (linksArray st) = [NegInfinity]
     \<and> map attr_r (nodeElements st)
          = [sizeScale (nodesArray st) NaN, sizeScale (nodesArray st) PosInfinity]
     \<and> map stroke_width (linkElements st) = [linkScale (linksArray st) PosInfinity]"
  by (simp add: eval_simps newNodeElement_def newLinkElement_def)

subsection \<open>Hover: the connected sets\<close>










subsection \<open>Drag\<close>

text \<open>
  C9 (as amended).  Drag-start fixes the node at its current coordinates
  (\<^verbatim>\<open>fx = x\<close>, \<^verbatim>\<open>fy = y\<close>) and, when no other drag gesture is active
  (\<^verbatim>\<open>event.active\<close> is 0), sets the target temperature to \<^verbatim>\<open>simulationAlpha\<close>, the
  small positive constant 0.005, and restarts the simulation; every drag event sets
  the fixed position to the pointer position; drag-end sets \<^verbatim>\<open>fx\<close> and \<^verbatim>\<open>fy\<close> to
  \<^verbatim>\<open>null\<close> and, when no other drag gesture is active, sets the target temperature
  to zero.  While another gesture is active neither handler touches the simulation.
\<close>

theorem C9_drag_protocol:
  assumes "i < length (nodesArray st)"
  shows "fx (nodesArray (dragstarted event i st) ! i) = toNullable (node_x (nodesArray st ! i))
       \<and> fy (nodesArray (dragstarted event i st) ! i) = toNullable (node_y (nodesArray st ! i))
       \<and> (active event = 0 \<longrightarrow>
             simulation (dragstarted event i st)
               = (simulation st)\<lparr>alphaTarget := simulationAlpha config, running := True\<rparr>)
       \<and> (active event \<noteq> 0 \<longrightarrow> simulation (dragstarted event i st) = simulation st)
       \<and> fx (nodesArray (dragged event i st) ! i) = Value (event_x event)
       \<and> fy (nodesArray (dragged event i st) ! i) = Value (event_y event)
       \<and> simulation (dragged event i st) = simulation st
       \<and> fx (nodesArray (dragended event i st) ! i) = Null
       \<and> fy (nodesArray (dragended event i st) ! i) = Null
       \<and> (active event = 0 \<longrightarrow>
             simulation (dragended event i st) = (simulation st)\<lparr>alphaTarget := Num 0\<rparr>)
       \<and> (active event \<noteq> 0 \<longrightarrow> simulation (dragended event i st) = simulation st)
       \<and> simulationAlpha config = Num (5/1000)"
  using assms by (simp add: dragstarted_def dragged_def dragended_def Let_def config_def)

theorem C9_drag_protocol_witness:
  "0 < length (nodesArray App_state)
   \<and> active \<lparr>active = 0, event_x = Num 3, event_y = Num 4\<rparr> = 0
   \<and> simulation (dragstarted \<lparr>active = 0, event_x = Num 3, event_y = Num 4\<rparr> 0 App_state)
       = \<lparr>alphaTarget = Num (5/1000), running = True\<rparr>
   \<and> fx (nodesArray (dragged \<lparr>active = 0, event_x = Num 3, event_y = Num 4\<rparr> 0 App_state) ! 0)
       = Value (Num 3)
   \<and> simulation (dragended \<lparr>active = 0, event_x = Num 3, event_y = Num 4\<rparr> 0
        (dragstarted \<lparr>active = 0, event_x = Num 3, event_y = Num 4\<rparr> 0 App_state))
       = \<lparr>alphaTarget = Num 0, running = True\<rparr>
   \<and> active \<lparr>active = 1, event_x = Num 3, event_y = Num 4\<rparr> \<noteq> 0
   \<and> simulation (dragstarted \<lparr>active = 1, event_x = Num 3, event_y = Num 4\<rparr> 0 App_state)
       = simulation App_state
   \<and> simulation (dragended \<lparr>active = 1, event_x = Num 3, event_y = Num 4\<rparr> 0 App_state)
       = simulation App_state"
proof -
  have len: "0 < length (nodesArray App_state)" by (simp add: App_state_def eval_simps)
  have len': "0 < length (nodesArray (dragstarted \<lparr>active = 0, event_x = Num 3, event_y = Num 4\<rparr> 0 App_state))"
    using len by (simp add: dragstarted_def Let_def)
  have sim: "simulation App_state = \<lparr>alphaTarget = Num 0, running = True\<rparr>"
    by (simp add: App_state_def eval_simps forceSimulation_def)
  from C9_drag_protocol[OF len, of "\<lparr>active = 0, event_x = Num 3, event_y = Num 4\<rparr>"]
       C9_drag_protocol[OF len', of "\<lparr>active = 0, event_x = Num 3, event_y = Num 4\<rparr>"]
       C9_drag_protocol[OF len, of "\<lparr>active = 1, event_x = Num 3, event_y = Num 4\<rparr>"]
       len sim
  show ?thesis by simp
qed

text \<open>
  The claim as stated fails: with another gesture active, drag-start does not set
  the target temperature, and drag-end does not reset it.
\<close>

theorem C9_active_gesture_counterexample:
  "alphaTarget (simulation (dragstarted \<lparr>active = 1, event_x = Num 3, event_y = Num 4\<rparr> 0 App_state))
     \<noteq> simulationAlpha config
   \<and> alphaTarget (simulation
        (dragended \<lparr>active = 1, event_x = Num 3, event_y = Num 4\<rparr> 0
          (dragstarted \<lparr>active = 0, event_x = Num 3, event_y = Num 4\<rparr> 0 App_state)))
     \<noteq> Num 0"
  by (simp add: dragstarted_def dragended_def Let_def App_state_def eval_simps
        forceSimulation_def config_def)

subsection \<open>Scales\<close>

lemma d3_max_step:
  "foldl (\<lambda>mx v. if (case mx of None \<Rightarrow> ge v v | Some m \<Rightarrow> lt m v) then Some v else mx)
     (Some (Num m)) (map Num rs) = Some (Num (Max (insert m (set rs))))"
proof (induction rs arbitrary: m)
  case Nil
  then show ?case by simp
next
  case (Cons r rs)
  show ?case
  proof (cases "m < r")
    case True
    have "Max (insert m (insert r (set rs))) = max m (Max (insert r (set rs)))"
      by (rule Max_insert) auto
    moreover have "r \<le> Max (insert r (set rs))" by (rule Max_ge) auto
    then have "max m (Max (insert r (set rs))) = Max (insert r (set rs))"
      using True by (intro max.absorb2) linarith
    ultimately have "Max (insert m (insert r (set rs))) = Max (insert r (set rs))"
      by (simp only:)
    with True show ?thesis by (simp add: Cons.IH del: Max_insert)
  next
    case False
    have "Max (insert r (insert m (set rs))) = max r (Max (insert m (set rs)))"
      by (rule Max_insert) auto
    moreover have "m \<le> Max (insert m (set rs))" by (rule Max_ge) auto
    then have "max r (Max (insert m (set rs))) = Max (insert m (set rs))"
      using False by (intro max.absorb2) linarith
    ultimately have "Max (insert m (insert r (set rs))) = Max (insert m (set rs))"
      by (simp only: insert_commute[of m r])
    with False show ?thesis by (simp add: Cons.IH del: Max_insert)
  qed
qed

lemma d3_max_Num:
  "d3_max (map Num rs) = (if rs = [] then None else Some (Num (Max (set rs))))"
  by (cases rs) (simp_all add: d3_max_def d3_max_step del: Max_insert)

lemma fl_zero: "fl 0 = Num 0"
  by (simp add: fl_def overflowThreshold_def underflowThreshold_def)

lemma fl_one: "fl 1 = Num 1"
  by (simp add: fl_def overflowThreshold_def underflowThreshold_def)

lemma fl_minus: "fl r = Num r \<Longrightarrow> fl (- r) = Num (- r)"
  by (auto simp: fl_def signed_def split: if_splits)

lemma fl_config:
  "fl 5 = Num 5" "fl 20 = Num 20" "fl (5/4) = Num (5/4)" "fl 3 = Num 3"
  by (simp_all add: fl_def overflowThreshold_def underflowThreshold_def)

lemma Math_pow_Num: "n \<noteq> 0 \<Longrightarrow> Math_pow (Num r) n = fl (r ^ n)"
  by (cases n) simp_all

text \<open>
  The two ends of a continuous scale whose domain starts at 0 and whose numbers are
  in the range of the doubles: every intermediate result is 0, 1 or one of the
  numbers given, so nothing is lost to rounding either.
\<close>

lemma bimap_boundary:
  assumes "fl c = Num c" "c \<noteq> 0" "fl a = Num a" "fl b = Num b"
  shows "bimap (Num 0, Num c) (Num a, Num b) (Num 0) = Num a"
    and "bimap (Num 0, Num c) (Num a, Num b) (Num c) = Num b"
  using assms fl_minus[OF assms(1)]
  by (simp_all add: bimap_def normalize_def interpolateNumber_def sub_def Let_def fl_zero fl_one)

lemma scaleLinear_boundary:
  assumes "fl c = Num c" "c \<noteq> 0" "fl a = Num a" "fl b = Num b"
  shows "scaleLinear (Num 0, Num c) (Num a, Num b) (Num 0) = Some (Num a)"
    and "scaleLinear (Num 0, Num c) (Num a, Num b) (Num c) = Some (Num b)"
  by (simp_all add: scaleLinear_def bimap_boundary[OF assms])

lemma scalePow_boundary:
  assumes "0 < c" "fl (c ^ 3) = Num (c ^ 3)" "fl a = Num a" "fl b = Num b"
  shows "scalePow 3 (Num 0, Num c) (Num a, Num b) (Num 0) = Some (Num a)"
    and "scalePow 3 (Num 0, Num c) (Num a, Num b) (Num c) = Some (Num b)"
proof -
  have t: "transformPow 3 (Num 0) = Num 0" "transformPow 3 (Num c) = Num (c ^ 3)"
    using assms(1,2) by (simp_all add: transformPow_def Math_pow_Num fl_zero)
  have "c ^ 3 \<noteq> 0" using assms(1) by simp
  note b = bimap_boundary[OF assms(2) this assms(3,4)]
  show "scalePow 3 (Num 0, Num c) (Num a, Num b) (Num 0) = Some (Num a)"
    "scalePow 3 (Num 0, Num c) (Num a, Num b) (Num c) = Some (Num b)"
    by (simp_all add: scalePow_def t b)
qed

lemma sizeScale_domain:
  assumes "map node_value ns = map Num rs"
  shows "sizeScale ns = scaleLinear (Num 0,
            Num (if rs = [] \<or> Max (set rs) = 0 then 1 else Max (set rs)))
           (minNodeSize config, maxNodeSize config)"
proof -
  have m: "d3_max (map node_value ns) = (if rs = [] then None else Some (Num (Max (set rs))))"
    by (simp only: assms d3_max_Num)
  show ?thesis by (simp add: sizeScale_def m or_one_def del: Max_insert)
qed

lemma linkScale_domain:
  assumes "map link_value ls = map Num vs"
  shows "linkScale ls = scalePow 3 (Num 0,
            Num (if vs = [] \<or> Max (set (map abs vs)) = 0 then 1 else Max (set (map abs vs))))
           (minLinkWidth config, maxLinkWidth config)"
proof -
  have "map (\<lambda>d. Math_abs (link_value d)) ls = map Math_abs (map link_value ls)"
    by (simp add: comp_def)
  also have "\<dots> = map Num (map abs vs)" by (simp add: assms(1) comp_def)
  finally have m: "d3_max (map (\<lambda>d. Math_abs (link_value d)) ls)
      = (if vs = [] then None else Some (Num (Max (set (map abs vs)))))"
    by (simp only: d3_max_Num) simp
  show ?thesis by (simp add: linkScale_def m or_one_def del: Max_insert set_map)
qed

lemma Max_abs_pos:
  assumes "vs \<noteq> []" "Max (set (map abs vs)) \<noteq> 0"
  shows "0 < Max (set (map abs (vs :: real list)))"
proof -
  from assms(1) obtain v where "v \<in> set vs" by (cases vs) auto
  then have "\<bar>v\<bar> \<le> Max (set (map abs vs))" by (intro Max_ge) auto
  with assms(2) show ?thesis by linarith
qed

lemma fl_Max:
  assumes "rs \<noteq> []" "\<forall>r \<in> set rs. fl r = Num r"
  shows "fl (Max (set rs)) = Num (Max (set rs))"
proof -
  have "Max (set rs) \<in> set rs" using assms(1) by (intro Max_in) auto
  with assms(2) show ?thesis by blast
qed

text \<open>
  C7 (as amended).  For finite node values in the range of the doubles, the size
  scale is d3's linear scale with the domain \<open>[0, max]\<close> when the maximum node value
  is not zero; it sends 0 to \<^verbatim>\<open>minNodeSize\<close> and the maximum to \<^verbatim>\<open>maxNodeSize\<close>.  When
  there are no nodes, or the maximum is zero, the domain is \<open>[0, 1]\<close>: 0 goes to
  \<^verbatim>\<open>minNodeSize\<close> and 1 to \<^verbatim>\<open>maxNodeSize\<close>.  For finite link values, the width scale
  is d3's power scale with exponent 3 and the domain \<open>[0, max |value|]\<close> when that
  maximum is not zero; it sends 0 to \<^verbatim>\<open>minLinkWidth\<close> and the maximum to
  \<^verbatim>\<open>maxLinkWidth\<close> provided the cube of the maximum is in the range of the doubles
  (it neither overflows nor underflows to zero).  With no links, or the maximum
  zero, the domain is \<open>[0, 1]\<close>: 0 goes to \<^verbatim>\<open>minLinkWidth\<close> and 1 to \<^verbatim>\<open>maxLinkWidth\<close>.
\<close>

theorem C7_scale_boundaries:
  assumes "map node_value ns = map Num rs" and "map link_value ls = map Num vs"
    and "list_all (\<lambda>r. fl r = Num r) rs"
  shows "(rs \<noteq> [] \<and> Max (set rs) \<noteq> 0 \<longrightarrow>
            sizeScale ns = scaleLinear (Num 0, Num (Max (set rs)))
                             (minNodeSize config, maxNodeSize config)
            \<and> sizeScale ns (Num 0) = Some (minNodeSize config)
            \<and> sizeScale ns (Num (Max (set rs))) = Some (maxNodeSize config))
       \<and> (rs = [] \<or> Max (set rs) = 0 \<longrightarrow>
            sizeScale ns = scaleLinear (Num 0, Num 1) (minNodeSize config, maxNodeSize config)
            \<and> sizeScale ns (Num 0) = Some (minNodeSize config)
            \<and> sizeScale ns (Num 1) = Some (maxNodeSize config))
       \<and> (vs \<noteq> [] \<and> Max (set (map abs vs)) \<noteq> 0 \<longrightarrow>
            linkScale ls = scalePow 3 (Num 0, Num (Max (set (map abs vs))))
                             (minLinkWidth config, maxLinkWidth config)
            \<and> (fl (Max (set (map abs vs)) ^ 3) = Num (Max (set (map abs vs)) ^ 3) \<longrightarrow>
                 linkScale ls (Num 0) = Some (minLinkWidth config)
                 \<and> linkScale ls (Num (Max (set (map abs vs)))) = Some (maxLinkWidth config)))
       \<and> (vs = [] \<or> Max (set (map abs vs)) = 0 \<longrightarrow>
            linkScale ls = scalePow 3 (Num 0, Num 1) (minLinkWidth config, maxLinkWidth config)
            \<and> linkScale ls (Num 0) = Some (minLinkWidth config)
            \<and> linkScale ls (Num 1) = Some (maxLinkWidth config))"
proof -
  note s = sizeScale_domain[OF assms(1)] and l = linkScale_domain[OF assms(2)]
  from assms(3) have inRange: "\<forall>r \<in> set rs. fl r = Num r" by (simp add: list_all_iff)
  have 1: "rs \<noteq> [] \<and> Max (set rs) \<noteq> 0 \<longrightarrow>
            sizeScale ns = scaleLinear (Num 0, Num (Max (set rs)))
                             (minNodeSize config, maxNodeSize config)
            \<and> sizeScale ns (Num 0) = Some (minNodeSize config)
            \<and> sizeScale ns (Num (Max (set rs))) = Some (maxNodeSize config)"
  proof (intro impI, elim conjE)
    assume ne: "rs \<noteq> []" and nz: "Max (set rs) \<noteq> 0"
    have d: "sizeScale ns = scaleLinear (Num 0, Num (Max (set rs)))
                             (minNodeSize config, maxNodeSize config)"
      using ne nz by (simp only: s) (simp del: Max_insert)
    note b = scaleLinear_boundary[OF fl_Max[OF ne inRange] nz fl_config(1,2)]
    show "sizeScale ns = scaleLinear (Num 0, Num (Max (set rs)))
                             (minNodeSize config, maxNodeSize config)
            \<and> sizeScale ns (Num 0) = Some (minNodeSize config)
            \<and> sizeScale ns (Num (Max (set rs))) = Some (maxNodeSize config)"
      using b by (simp only: d) (simp add: config_def del: Max_insert)
  qed
  have 2: "rs = [] \<or> Max (set rs) = 0 \<longrightarrow>
            sizeScale ns = scaleLinear (Num 0, Num 1) (minNodeSize config, maxNodeSize config)
            \<and> sizeScale ns (Num 0) = Some (minNodeSize config)
            \<and> sizeScale ns (Num 1) = Some (maxNodeSize config)"
  proof
    assume z: "rs = [] \<or> Max (set rs) = 0"
    have d: "sizeScale ns = scaleLinear (Num 0, Num 1) (minNodeSize config, maxNodeSize config)"
      using z by (simp only: s) (auto simp del: Max_insert)
    have "(1::real) \<noteq> 0" by simp
    note b = scaleLinear_boundary[OF fl_one this fl_config(1,2)]
    show "sizeScale ns = scaleLinear (Num 0, Num 1) (minNodeSize config, maxNodeSize config)
            \<and> sizeScale ns (Num 0) = Some (minNodeSize config)
            \<and> sizeScale ns (Num 1) = Some (maxNodeSize config)"
      using b by (simp only: d) (simp add: config_def)
  qed
  have 3: "vs \<noteq> [] \<and> Max (set (map abs vs)) \<noteq> 0 \<longrightarrow>
            linkScale ls = scalePow 3 (Num 0, Num (Max (set (map abs vs))))
                             (minLinkWidth config, maxLinkWidth config)
            \<and> (fl (Max (set (map abs vs)) ^ 3) = Num (Max (set (map abs vs)) ^ 3) \<longrightarrow>
                 linkScale ls (Num 0) = Some (minLinkWidth config)
                 \<and> linkScale ls (Num (Max (set (map abs vs)))) = Some (maxLinkWidth config))"
  proof (intro impI, elim conjE)
    assume ne: "vs \<noteq> []" and nz: "Max (set (map abs vs)) \<noteq> 0"
    have d: "linkScale ls = scalePow 3 (Num 0, Num (Max (set (map abs vs))))
                             (minLinkWidth config, maxLinkWidth config)"
      using ne nz by (simp only: l) (simp del: Max_insert set_map)
    have b: "linkScale ls (Num 0) = Some (minLinkWidth config)
                 \<and> linkScale ls (Num (Max (set (map abs vs)))) = Some (maxLinkWidth config)"
      if c: "fl (Max (set (map abs vs)) ^ 3) = Num (Max (set (map abs vs)) ^ 3)"
      using scalePow_boundary[OF Max_abs_pos[OF ne nz] c fl_config(3,4)]
      by (simp only: d) (simp add: config_def del: Max_insert set_map)
    show "linkScale ls = scalePow 3 (Num 0, Num (Max (set (map abs vs))))
                             (minLinkWidth config, maxLinkWidth config)
            \<and> (fl (Max (set (map abs vs)) ^ 3) = Num (Max (set (map abs vs)) ^ 3) \<longrightarrow>
                 linkScale ls (Num 0) = Some (minLinkWidth config)
                 \<and> linkScale ls (Num (Max (set (map abs vs)))) = Some (maxLinkWidth config))"
      using d b by blast
  qed
  have 4: "vs = [] \<or> Max (set (map abs vs)) = 0 \<longrightarrow>
            linkScale ls = scalePow 3 (Num 0, Num 1) (minLinkWidth config, maxLinkWidth config)
            \<and> linkScale ls (Num 0) = Some (minLinkWidth config)
            \<and> linkScale ls (Num 1) = Some (maxLinkWidth config)"
  proof
    assume z: "vs = [] \<or> Max (set (map abs vs)) = 0"
    have d: "linkScale ls = scalePow 3 (Num 0, Num 1) (minLinkWidth config, maxLinkWidth config)"
      using z by (simp only: l) (auto simp del: Max_insert set_map)
    have "(0::real) < 1" "fl (1 ^ 3) = Num (1 ^ 3)" by (simp_all add: fl_one)
    note b = scalePow_boundary[OF this fl_config(3,4)]
    show "linkScale ls = scalePow 3 (Num 0, Num 1) (minLinkWidth config, maxLinkWidth config)
            \<and> linkScale ls (Num 0) = Some (minLinkWidth config)
            \<and> linkScale ls (Num 1) = Some (maxLinkWidth config)"
      using b by (simp only: d) (simp add: config_def)
  qed
  from 1 2 3 4 show ?thesis by (simp only: simp_thms)
qed

text \<open>
  The claim as stated fails in two ways.  When the maximum value is 0 the domain is
  \<open>[0, 1]\<close> (line 187, \<^verbatim>\<open>|| 1\<close>), and the maximum is sent to the lower end of the
  range.  And when the cube of the maximum link value overflows, as for the finite
  values \<^verbatim>\<open>2^342\<close> and 1, the transformed domain is \<open>[0, \<infinity>]\<close> and the width of the
  maximum is NaN; when it underflows to zero, every width is the middle of the
  range.
\<close>

theorem C7_zero_maximum_counterexample:
  "d3_max (map node_value (buildNodes [(''A'', Num 0)])) = Some (Num 0)
   \<and> sizeScale (buildNodes [(''A'', Num 0)]) (Num 0) = Some (minNodeSize config)
   \<and> sizeScale (buildNodes [(''A'', Num 0)]) (Num 0) \<noteq> Some (maxNodeSize config)
   \<and> d3_max (map (\<lambda>d. Math_abs (link_value d))
        [\<lparr>source = NodeRef 0, target = NodeRef 0, link_value = Num 0\<rparr>]) = Some (Num 0)
   \<and> linkScale [\<lparr>source = NodeRef 0, target = NodeRef 0, link_value = Num 0\<rparr>] (Num 0)
        \<noteq> Some (maxLinkWidth config)
   \<and> fl (2 ^ 342) = Num (2 ^ 342)
   \<and> d3_max (map (\<lambda>d. Math_abs (link_value d))
        [\<lparr>source = NodeRef 0, target = NodeRef 1, link_value = Num (2 ^ 342)\<rparr>,
         \<lparr>source = NodeRef 1, target = NodeRef 0, link_value = Num 1\<rparr>]) = Some (Num (2 ^ 342))
   \<and> linkScale
        [\<lparr>source = NodeRef 0, target = NodeRef 1, link_value = Num (2 ^ 342)\<rparr>,
         \<lparr>source = NodeRef 1, target = NodeRef 0, link_value = Num 1\<rparr>] (Num (2 ^ 342)) = Some NaN
   \<and> fl (1 / 2 ^ 360) = Num (1 / 2 ^ 360)
   \<and> linkScale
        [\<lparr>source = NodeRef 0, target = NodeRef 1, link_value = Num (1 / 2 ^ 360)\<rparr>,
         \<lparr>source = NodeRef 1, target = NodeRef 0, link_value = Num (- (1 / 2 ^ 361))\<rparr>]
        (Num (1 / 2 ^ 360)) = Some (Num (17/8))
   \<and> linkScale
        [\<lparr>source = NodeRef 0, target = NodeRef 1, link_value = Num (1 / 2 ^ 360)\<rparr>,
         \<lparr>source = NodeRef 1, target = NodeRef 0, link_value = Num (- (1 / 2 ^ 361))\<rparr>]
        (Math_abs (Num (- (1 / 2 ^ 361)))) = Some (Num (17/8))"
  by (simp add: buildNodes_def Object_entries_def is_array_index_def newNode_def d3_max_def
        sizeScale_def linkScale_def or_one_def scaleLinear_def scalePow_def transformPow_def
        bimap_def normalize_def interpolateNumber_def sub_def config_def Let_def Math_pow_Num
        fl_def overflowThreshold_def underflowThreshold_def signed_def power_divide)

theorem C7_scale_boundaries_witness:
  "map node_value (buildNodes App_nodeData) = map Num [10, 20, 15, 25, 30]
   \<and> map link_value (buildLinks (buildNodes App_nodeData) App_edgeData) = map Num [1, - 2, 3, 4, - 5]
   \<and> list_all (\<lambda>r. fl r = Num r) [10, 20, 15, 25, 30]
   \<and> [10, 20, 15, 25, 30] \<noteq> ([] :: real list) \<and> Max (set [10, 20, 15, 25, 30 :: real]) = 30
   \<and> Max (set (map abs [1, - 2, 3, 4, - 5 :: real])) = 5
   \<and> fl 125 = Num 125
   \<and> sizeScale (buildNodes App_nodeData)
        = scaleLinear (Num 0, Num 30) (minNodeSize config, maxNodeSize config)
   \<and> sizeScale (buildNodes App_nodeData) (Num 0) = Some (minNodeSize config)
   \<and> sizeScale (buildNodes App_nodeData) (Num 30) = Some (maxNodeSize config)
   \<and> linkScale (buildLinks (buildNodes App_nodeData) App_edgeData)
        = scalePow 3 (Num 0, Num 5) (minLinkWidth config, maxLinkWidth config)
   \<and> linkScale (buildLinks (buildNodes App_nodeData) App_edgeData) (Num 0) = Some (minLinkWidth config)
   \<and> linkScale (buildLinks (buildNodes App_nodeData) App_edgeData) (Num 5) = Some (maxLinkWidth config)
   \<and> map node_value [] = map Num [] \<and> map link_value [] = map Num []
   \<and> sizeScale [] (Num 0) = Some (minNodeSize config) \<and> sizeScale [] (Num 1) = Some (maxNodeSize config)
   \<and> linkScale [] (Num 0) = Some (minLinkWidth config) \<and> linkScale [] (Num 1) = Some (maxLinkWidth config)"
proof -
  let ?ns = "buildNodes App_nodeData" and ?ls = "buildLinks (buildNodes App_nodeData) App_edgeData"
  have n: "map node_value ?ns = map Num [10, 20, 15, 25, 30]"
    by (simp add: eval_simps)
  have l: "map link_value ?ls = map Num [1, - 2, 3, 4, - 5]"
    by (simp add: eval_simps)
  have r: "list_all (\<lambda>r. fl r = Num r) [10, 20, 15, 25, 30]"
    "fl 125 = Num 125"
    by (simp_all add: fl_def overflowThreshold_def underflowThreshold_def)
  have mx: "[10, 20, 15, 25, 30] \<noteq> ([] :: real list)" "Max (set [10, 20, 15, 25, 30 :: real]) = 30"
    "Max (set (map abs [1, - 2, 3, 4, - 5 :: real])) = 5"
    by simp_all
  have e: "map node_value [] = map Num []" "map link_value [] = map Num []"
    "list_all (\<lambda>r. fl r = Num r) []" by simp_all
  note t1 = C7_scale_boundaries[OF n l r(1), simplified]
    and t2 = C7_scale_boundaries[OF e, simplified]
  from t1 t2 n l mx r e
  show ?thesis by blast
qed

subsection \<open>Hover and mouse-out\<close>

text \<open>
  After either reset handler every line has \<^verbatim>\<open>defaultLinkOpacity\<close> and every node and
  label the opacity of its \<^verbatim>\<open>visible\<close> flag; node hover and both resets leave the
  stroke widths as they are.
\<close>

lemma resetHighlightedNodes_baseline:
  assumes "length (nodeElements st) = length (nodesArray st)"
    and "length (labelElements st) = length (nodesArray st)"
  shows "map stroke_opacity (linkElements (resetHighlightedNodes st))
           = map (\<lambda>el. Some (defaultLinkOpacity config)) (linkElements st)"
    and "map stroke_width (linkElements (resetHighlightedNodes st)) = map stroke_width (linkElements st)"
    and "map opacity (nodeElements (resetHighlightedNodes st))
           = map (\<lambda>n. Some (visibleOpacity n)) (nodesArray st)"
    and "map label_opacity (labelElements (resetHighlightedNodes st))
           = map (\<lambda>n. Some (visibleOpacity n)) (nodesArray st)"
  using assms
  by (auto simp: resetHighlightedNodes_def comp_def intro!: nth_equalityI)

lemma resetLinkHighlight_baseline:
  assumes "length (nodeElements st) = length (nodesArray st)"
    and "length (labelElements st) = length (nodesArray st)"
  shows "map stroke_opacity (linkElements (resetLinkHighlight st))
           = map (\<lambda>el. Some (defaultLinkOpacity config)) (linkElements st)"
    and "map stroke_width (linkElements (resetLinkHighlight st)) = map stroke_width (linkElements st)"
    and "map opacity (nodeElements (resetLinkHighlight st))
           = map (\<lambda>n. Some (visibleOpacity n)) (nodesArray st)"
    and "map label_opacity (labelElements (resetLinkHighlight st))
           = map (\<lambda>n. Some (visibleOpacity n)) (nodesArray st)"
  using assms
  by (auto simp: resetLinkHighlight_def comp_def intro!: nth_equalityI)

lemma highlightConnectedNodes_frame:
  "map stroke_width (linkElements (highlightConnectedNodes i st)) = map stroke_width (linkElements st)"
  "nodesArray (highlightConnectedNodes i st) = nodesArray st"
  "length (nodeElements st) = length (nodesArray st) \<Longrightarrow>
     length (nodeElements (highlightConnectedNodes i st)) = length (nodesArray st)"
  "length (labelElements st) = length (nodesArray st) \<Longrightarrow>
     length (labelElements (highlightConnectedNodes i st)) = length (nodesArray st)"
  by (auto simp: highlightConnectedNodes_def Let_def comp_def nth_enumerate_eq intro!: nth_equalityI)

lemma highlightLink_width:
  assumes "j < length (linkElements st)"
  shows "stroke_width (linkElements (resetLinkHighlight (highlightLink j st)) ! j)
     = Some (mul (toNumber (linkScale (linksArray st) (Math_abs (link_value (linksArray st ! j)))))
              (Num (3/2)))"
  using assms by (simp add: resetLinkHighlight_def highlightLink_def Let_def nth_enumerate_eq)

text \<open>
  C6, at the example application: the line of link 0 (value 1) is drawn with its
  scaled width 1.264; hovering it sets the width to 1.5 times that, 1.896, and
  mouse-out (\<^verbatim>\<open>resetLinkHighlight\<close>) restores the opacity only, so the line keeps
  the width 1.896 and the baseline is not restored.
\<close>

theorem C6_link_hover_width_kept:
  "stroke_width (linkElements App_state ! 0) = Some (Num (158/125))
   \<and> stroke_width (linkElements (resetLinkHighlight (highlightLink 0 App_state)) ! 0)
       = Some (Num (237/125))
   \<and> stroke_width (linkElements (resetLinkHighlight (highlightLink 0 App_state)) ! 0)
       \<noteq> stroke_width (linkElements App_state ! 0)"
  by (simp add: App_state_def eval_simps newLinkElement_def resetLinkHighlight_def highlightLink_def
        enumerate_eq_zip toNumber_def linkScale_def d3_max_def or_one_def scalePow_def
        transformPow_def bimap_def normalize_def interpolateNumber_def sub_def config_def
        Math_pow_Num fl_def overflowThreshold_def underflowThreshold_def)

subsection \<open>Changing the link filter\<close>

text \<open>
  Setting the filter to the mode it has changes nothing.  Setting it to another
  mode runs the main effect again: the nodes and links are built anew from the
  props, each node visible and placed afresh, a new simulation is created, and the
  second effect then sets the display of every line for the new mode.
\<close>

lemma setCurrentFilter_same: "setCurrentFilter (currentFilter st) st = Inr st"
  by (simp add: setCurrentFilter_def)

lemma setCurrentFilter_other:
  assumes "mode \<noteq> currentFilter st"
  shows "\<exists>st'. setCurrentFilter mode st = Inr st'
     \<and> currentFilter st' = mode
     \<and> props_nodeData st' = props_nodeData st \<and> props_edgeData st' = props_edgeData st
     \<and> generation st' = Suc (generation st) \<and> simulation st' = forceSimulation
     \<and> superseded st' = superseded st @ [stop (simulation st)]
     \<and> nodesArray st' = initializeNodes (buildNodes (props_nodeData st))
     \<and> list_all visible (nodesArray st')
     \<and> list_all2 (resolvedFrom (nodesArray st'))
           (buildLinks (buildNodes (props_nodeData st)) (props_edgeData st)) (linksArray st')
     \<and> map display (linkElements st')
          = map (\<lambda>l. Some (linkDisplay mode (nodesArray st') l)) (linksArray st')"
proof -
  from mainEffect_Inr[of "props_nodeData st" "props_edgeData st" mode "Suc (generation st)"]
  obtain s where
    s: "mainEffect (props_nodeData st) (props_edgeData st) mode (Suc (generation st)) = Inr s"
      "props_nodeData s = props_nodeData st" "props_edgeData s = props_edgeData st"
      "currentFilter s = mode" "generation s = Suc (generation st)"
      "simulation s = forceSimulation"
      "nodesArray s = initializeNodes (buildNodes (props_nodeData st))"
      "list_all2 (resolvedFrom (nodesArray s))
         (buildLinks (buildNodes (props_nodeData st)) (props_edgeData st)) (linksArray s)"
      "linkElements s = map (newLinkElement (linksArray s)) (linksArray s)"
    by blast
  let ?sims = "superseded st @ [stop (simulation st)]"
  have r: "setCurrentFilter mode st = Inr ((visibilityEffect s)\<lparr>superseded := ?sims\<rparr>)"
    using assms s(1) by (simp add: setCurrentFilter_def visibilityEffect_superseded)
  have v: "list_all visible (nodesArray s)"
    using buildNodes_visible[of "props_nodeData st"] initializeNodes_fields(3)[of "buildNodes (props_nodeData st)"]
    by (simp add: s(7) list_all_iff) (metis (no_types, lifting) image_iff set_map)
  have d: "map display (linkElements (visibilityEffect s))
          = map (\<lambda>l. Some (linkDisplay mode (nodesArray s) l)) (linksArray s)"
    by (rule nth_equalityI) (simp_all add: visibilityEffect_def s(9) s(4))
  from r v d s(2-8) show ?thesis by (simp add: visibilityEffect_fields)
qed

subsection \<open>The invariant of the reachable states\<close>

lemma optVisible_find_cong:
  assumes "map node_id ns' = map node_id ns" "map visible ns' = map visible ns"
  shows "optVisible (find (\<lambda>n. node_id n = s) ns') = optVisible (find (\<lambda>n. node_id n = s) ns)"
proof -
  have "length ns' = length ns" using assms(1) by (rule map_eq_imp_length_eq)
  then show ?thesis using assms
    by (induction ns' ns rule: list_induct2) (auto simp: optVisible_def)
qed

lemma endpointId_deref_cong:
  assumes "map node_id ns' = map node_id ns" "endpointOK ns e"
  shows "endpointId (deref ns' e) = endpointId (deref ns e)"
proof (cases e)
  case (NodeId s)
  then show ?thesis by (simp add: deref_def endpointId_def)
next
  case (NodeRef i)
  with assms(2) have i: "i < length ns" by (simp add: endpointOK_def)
  moreover have "length ns' = length ns" using assms(1) by (rule map_eq_imp_length_eq)
  ultimately have "node_id (ns' ! i) = node_id (ns ! i)"
    using assms(1) by (metis nth_map)
  with NodeRef show ?thesis by (simp add: deref_def endpointId_def)
qed

lemma linkDisplay_cong:
  assumes "map node_id ns' = map node_id ns" "map visible ns' = map visible ns"
    and "endpointOK ns (source l)" "endpointOK ns (target l)"
  shows "linkDisplay cf ns' l = linkDisplay cf ns l"
  by (simp add: linkDisplay_def Let_def endpointId_deref_cong[OF assms(1,3)]
        endpointId_deref_cong[OF assms(1,4)] optVisible_find_cong[OF assms(1,2)])

lemma displayed_nodes_cong:
  assumes "wellFormed st" "displayed st"
    and "map node_id ns' = map node_id (nodesArray st)" "map visible ns' = map visible (nodesArray st)"
  shows "displayed (st\<lparr>nodesArray := ns'\<rparr>)"
proof -
  have "linkDisplay (currentFilter st) ns' l = linkDisplay (currentFilter st) (nodesArray st) l"
    if "l \<in> set (linksArray st)" for l
    using that assms(1) by (intro linkDisplay_cong[OF assms(3,4)]) (auto simp: wellFormed_def list_all_iff)
  with assms(2) show ?thesis by (simp add: displayed_def)
qed

lemma wellFormed_nodes_cong:
  assumes "wellFormed st" "map node_id ns' = map node_id (nodesArray st)"
  shows "wellFormed (st\<lparr>nodesArray := ns'\<rparr>)"
proof -
  have "length ns' = length (nodesArray st)" using assms(2) by (rule map_eq_imp_length_eq)
  with assms show ?thesis
    by (simp add: wellFormed_def endpointOK_def split: endpoint.splits)
qed

lemma displayed_visibilityEffect:
  "length (linkElements st) = length (linksArray st) \<Longrightarrow> displayed (visibilityEffect st)"
  by (auto simp: displayed_def visibilityEffect_def intro!: nth_equalityI)

lemma invariant_visibilityEffect:
  assumes "wellFormed st"
  shows "wellFormed (visibilityEffect st) \<and> displayed (visibilityEffect st)"
  using assms wellFormed_visibilityEffect displayed_visibilityEffect
  by (simp add: wellFormed_def)

lemma invariant_mainEffect:
  assumes "distinct (map fst nd)" "mainEffect nd ed cf gen = Inr s"
  shows "wellFormed (visibilityEffect s) \<and> displayed (visibilityEffect s)
         \<and> props_nodeData (visibilityEffect s) = nd"
  using invariant_visibilityEffect[OF wellFormed_mainEffect[OF assms]] mainEffect_Inr[of nd ed cf gen] assms(2)
  by (auto simp: visibilityEffect_fields)

lemma invariant_mount:
  assumes "distinct (map fst nd)" "mount nd ed = Inr st"
  shows "wellFormed st \<and> displayed st \<and> props_nodeData st = nd"
proof -
  from mainEffect_Inr[of nd ed "''all''" 1]
  obtain s where s: "mainEffect nd ed ''all'' 1 = Inr s" by blast
  with assms(2) have "st = visibilityEffect s" by (simp add: mount_def)
  with invariant_mainEffect[OF assms(1) s] show ?thesis by simp
qed

lemma invariant_setCurrentFilter:
  assumes "wellFormed st" "displayed st" "distinct (map fst (props_nodeData st))"
    and "setCurrentFilter mode st = Inr st'"
  shows "wellFormed st' \<and> displayed st' \<and> props_nodeData st' = props_nodeData st"
proof (cases "mode = currentFilter st")
  case True
  with assms show ?thesis by (simp add: setCurrentFilter_def)
next
  case False
  from mainEffect_Inr[of "props_nodeData st" "props_edgeData st" mode "Suc (generation st)"]
  obtain s where s: "mainEffect (props_nodeData st) (props_edgeData st) mode (Suc (generation st)) = Inr s"
    by blast
  with False assms(4)
  have "st' = (visibilityEffect s)\<lparr>superseded := superseded st @ [stop (simulation st)]\<rparr>"
    by (simp add: setCurrentFilter_def visibilityEffect_superseded)
  with invariant_mainEffect[OF assms(3) s] show ?thesis by (simp add: superseded_update)
qed

lemma invariant_nodes:
  assumes "wellFormed st" "displayed st"
    and "map node_id ns' = map node_id (nodesArray st)" "map visible ns' = map visible (nodesArray st)"
  shows "wellFormed (st\<lparr>nodesArray := ns'\<rparr>) \<and> displayed (st\<lparr>nodesArray := ns'\<rparr>)"
  using wellFormed_nodes_cong[OF assms(1,3)] displayed_nodes_cong[OF assms] by simp

lemma invariant_simulationTick:
  assumes "wellFormed st" "displayed st" "length ps = length (nodesArray st)"
  shows "wellFormed (simulationTick ps st) \<and> displayed (simulationTick ps st)"
  unfolding simulationTick_def
  by (rule invariant_nodes[OF assms(1,2)]; rule nth_equalityI)
     (simp_all add: assms(3) case_prod_beta)

lemma invariant_simulation_update:
  "wellFormed st \<Longrightarrow> wellFormed (st\<lparr>simulation := s\<rparr>)"
  "displayed st \<Longrightarrow> displayed (st\<lparr>simulation := s\<rparr>)"
  by (simp_all add: wellFormed_def displayed_def)

lemma invariant_drag:
  assumes "wellFormed st" "displayed st"
  shows "wellFormed (dragstarted event i st) \<and> displayed (dragstarted event i st)"
    and "wellFormed (dragged event i st) \<and> displayed (dragged event i st)"
    and "wellFormed (dragended event i st) \<and> displayed (dragended event i st)"
proof -
  have upd: "wellFormed (s\<lparr>nodesArray := (nodesArray s)[i := d]\<rparr>)
             \<and> displayed (s\<lparr>nodesArray := (nodesArray s)[i := d]\<rparr>)"
    if "wellFormed s" "displayed s" "node_id d = node_id (nodesArray s ! i)"
       "visible d = visible (nodesArray s ! i)" for s d
    using that by (intro invariant_nodes map_update_same) simp_all
  show "wellFormed (dragstarted event i st) \<and> displayed (dragstarted event i st)"
    using upd[of "st\<lparr>simulation := (simulation st)\<lparr>alphaTarget := simulationAlpha config, running := True\<rparr>\<rparr>"]
      upd[of st] assms
    by (simp add: dragstarted_def Let_def invariant_simulation_update)
  show "wellFormed (dragged event i st) \<and> displayed (dragged event i st)"
    using upd[of st] assms by (simp add: dragged_def)
  show "wellFormed (dragended event i st) \<and> displayed (dragended event i st)"
    using upd[of "st\<lparr>simulation := (simulation st)\<lparr>alphaTarget := Num 0\<rparr>\<rparr>"] upd[of st] assms
    by (simp add: dragended_def Let_def invariant_simulation_update)
qed

lemma invariant_select:
  assumes "wellFormed st"
  shows "wellFormed (selectAll st) \<and> displayed (selectAll st)"
    and "wellFormed (selectNone st) \<and> displayed (selectNone st)"
proof -
  have "wellFormed (st\<lparr>nodesArray := map (\<lambda>d. d\<lparr>visible := b\<rparr>) (nodesArray st)\<rparr>)" for b
    using assms by (intro wellFormed_nodes_cong) (simp_all add: comp_def)
  then show "wellFormed (selectAll st) \<and> displayed (selectAll st)"
    and "wellFormed (selectNone st) \<and> displayed (selectNone st)"
    by (simp_all add: selectAll_def selectNone_def invariant_visibilityEffect)
qed

lemma invariant_toggleVisibility:
  assumes "wellFormed st"
  shows "wellFormed (toggleVisibility i st) \<and> displayed (toggleVisibility i st)"
  unfolding toggleVisibility_def
  by (rule invariant_visibilityEffect) (rule wellFormed_updateNodeVisibility[OF assms])

lemma invariant_elements:
  assumes "wellFormed st" "displayed st"
    and "map display ls' = map display (linkElements st)"
    and "length ns' = length (nodeElements st)" "length bs' = length (labelElements st)"
  shows "wellFormed (st\<lparr>linkElements := ls', nodeElements := ns', labelElements := bs'\<rparr>)
       \<and> displayed (st\<lparr>linkElements := ls', nodeElements := ns', labelElements := bs'\<rparr>)"
proof -
  have "length ls' = length (linkElements st)" using assms(3) by (rule map_eq_imp_length_eq)
  with assms show ?thesis by (simp add: wellFormed_def displayed_def)
qed

lemma invariant_hover:
  assumes "wellFormed st" "displayed st"
  shows "wellFormed (highlightConnectedNodes i st) \<and> displayed (highlightConnectedNodes i st)"
    and "wellFormed (resetHighlightedNodes st) \<and> displayed (resetHighlightedNodes st)"
    and "wellFormed (highlightLink j st) \<and> displayed (highlightLink j st)"
    and "wellFormed (resetLinkHighlight st) \<and> displayed (resetLinkHighlight st)"
proof -
  from assms(1) have len: "length (nodeElements st) = length (nodesArray st)"
      "length (labelElements st) = length (nodesArray st)"
    by (simp_all add: wellFormed_def)
  show "wellFormed (highlightConnectedNodes i st) \<and> displayed (highlightConnectedNodes i st)"
  proof (cases "visible (nodesArray st ! i)")
    case True
    then show ?thesis unfolding highlightConnectedNodes_def Let_def
      by (simp only: if_False not_True_eq_False simp_thms)
         (rule invariant_elements[OF assms]; simp add: len; rule nth_equalityI; simp add: nth_enumerate_eq)
  next
    case False
    with assms show ?thesis by (simp add: highlightConnectedNodes_def Let_def)
  qed
  show "wellFormed (resetHighlightedNodes st) \<and> displayed (resetHighlightedNodes st)"
    unfolding resetHighlightedNodes_def
    by (rule invariant_elements[OF assms]) (simp_all add: len comp_def)
  show "wellFormed (highlightLink j st) \<and> displayed (highlightLink j st)"
    unfolding highlightLink_def Let_def
    by (rule invariant_elements[OF assms]; simp add: len; rule nth_equalityI; simp add: nth_enumerate_eq)
  show "wellFormed (resetLinkHighlight st) \<and> displayed (resetLinkHighlight st)"
    unfolding resetLinkHighlight_def
    by (rule invariant_elements[OF assms]) (simp_all add: len comp_def)
qed

lemma props_kept:
  "props_nodeData (simulationTick ps st) = props_nodeData st"
  "props_nodeData (toggleVisibility i st) = props_nodeData st"
  "props_nodeData (selectAll st) = props_nodeData st"
  "props_nodeData (selectNone st) = props_nodeData st"
  "props_nodeData (dragstarted event i st) = props_nodeData st"
  "props_nodeData (dragged event i st) = props_nodeData st"
  "props_nodeData (dragended event i st) = props_nodeData st"
  "props_nodeData (highlightConnectedNodes i st) = props_nodeData st"
  "props_nodeData (resetHighlightedNodes st) = props_nodeData st"
  "props_nodeData (highlightLink j st) = props_nodeData st"
  "props_nodeData (resetLinkHighlight st) = props_nodeData st"
  by (simp_all add: simulationTick_def toggleVisibility_def updateNodeVisibility_def selectAll_def
        selectNone_def dragstarted_def dragged_def dragended_def highlightConnectedNodes_def
        resetHighlightedNodes_def highlightLink_def resetLinkHighlight_def Let_def
        visibilityEffect_fields)

lemma reachable_invariant:
  assumes "reachable st"
  shows "wellFormed st \<and> displayed st \<and> distinct (map fst (props_nodeData st))"
  using assms
proof (induction rule: reachable.induct)
  case (mounted nodeData edgeData st)
  then show ?case using invariant_mount by blast
next
  case (ticked st ps)
  then show ?case using invariant_simulationTick by (simp add: props_kept)
next
  case (legend_clicked st i)
  then show ?case using invariant_toggleVisibility by (simp add: props_kept)
next
  case (all_selected st)
  then show ?case using invariant_select(1) by (simp add: props_kept)
next
  case (none_selected st)
  then show ?case using invariant_select(2) by (simp add: props_kept)
next
  case (filter_set st mode st')
  then show ?case using invariant_setCurrentFilter[of st mode st'] by simp
next
  case (drag_started st i event)
  then show ?case using invariant_drag(1) by (simp add: props_kept)
next
  case (drag_moved st i event)
  then show ?case using invariant_drag(2) by (simp add: props_kept)
next
  case (drag_ended st i event)
  then show ?case using invariant_drag(3) by (simp add: props_kept)
next
  case (node_hovered st i)
  then show ?case using invariant_hover(1) by (simp add: props_kept)
next
  case (node_left st)
  then show ?case using invariant_hover(2) by (simp add: props_kept)
next
  case (link_hovered st j)
  then show ?case using invariant_hover(3) by (simp add: props_kept)
next
  case (link_left st)
  then show ?case using invariant_hover(4) by (simp add: props_kept)
qed

lemma reachable_App_state: "reachable App_state"
  by (rule reachable.mounted[OF _ mount_App]) (simp add: App_nodeData_def)

subsection \<open>Link renderability in the reachable states\<close>




text \<open>
  The scenarios of the specification: the edge to the missing node D is dropped;
  hovering B reaches A and C under \<^verbatim>\<open>'all'\<close>, only A under \<^verbatim>\<open>'positive'\<close>, and
  only C once A is hidden.
\<close>

lemma scenarios_of_the_specification:
  "\<exists>st. mount [(''A'', Num 10), (''B'', Num 20), (''C'', Num 15)]
           [\<lparr>edge_source = ''A'', edge_target = ''B'', edge_value = Num 5\<rparr>,
            \<lparr>edge_source = ''B'', edge_target = ''C'', edge_value = Num (- 3)\<rparr>,
            \<lparr>edge_source = ''A'', edge_target = ''D'', edge_value = Num 1\<rparr>] = Inr st
     \<and> map node_id (nodesArray st) = [''A'', ''B'', ''C'']
     \<and> linksArray st = [\<lparr>source = NodeRef 0, target = NodeRef 1, link_value = Num 5\<rparr>,
                         \<lparr>source = NodeRef 1, target = NodeRef 2, link_value = Num (- 3)\<rparr>]
     \<and> hasNegativeLinks (linksArray st)
     \<and> connected ''all'' (nodesArray st) (linksArray st) (nodesArray st ! 1)
          = ({''A'', ''B'', ''C''}, {0, 1})
     \<and> connected ''positive'' (nodesArray st) (linksArray st) (nodesArray st ! 1)
          = ({''A'', ''B''}, {0})
     \<and> connected ''all'' (nodesArray (toggleVisibility 0 st)) (linksArray (toggleVisibility 0 st))
            (nodesArray (toggleVisibility 0 st) ! 1)
          = ({''B'', ''C''}, {1})"
  by (simp add: eval_simps hasNegativeLinks_def toggleVisibility_def updateNodeVisibility_def
        connected_def connectStep_def endpointNode_def enumerate_eq_zip)
     auto

subsection \<open>The nodes and links of a reachable state are those of its props\<close>

lemma nodeById_cong: "map node_id ns' = map node_id ns \<Longrightarrow> nodeById ns' = nodeById ns"
  using map_eq_imp_length_eq[of node_id ns' node_id ns] by (simp add: nodeById_def)

lemma forceLink_initialize_cong:
  assumes "map node_id ns' = map node_id ns"
  shows "forceLink_initialize ns' ls = forceLink_initialize ns ls"
proof -
  have "find_endpoint ns' e = find_endpoint ns e" for e
    by (cases e) (simp_all add: find_endpoint_def nodeById_cong[OF assms])
  then show ?thesis by (induction ls) (simp_all cong: sum.case_cong)
qed

lemma fromProps_mainEffect:
  assumes "mainEffect nd ed cf gen = Inr s"
  shows "fromProps (visibilityEffect s)"
proof -
  from mainEffect_Inr[of nd ed cf gen] assms have
    p: "props_nodeData s = nd" "props_edgeData s = ed"
    and n: "nodesArray s = initializeNodes (buildNodes nd)"
    by auto
  have "forceLink_initialize (initializeNodes (buildNodes nd)) (buildLinks (buildNodes nd) ed)
          = Inr (linksArray s)"
    using assms by (auto simp: mainEffect_def Let_def split: sum.splits)
  then show ?thesis
    by (simp add: fromProps_def visibilityEffect_fields p n initializeNodes_fields
          buildNodes_id buildNodes_value)
qed

lemma fromProps_cong:
  assumes "fromProps st"
    and "props_nodeData st' = props_nodeData st" "props_edgeData st' = props_edgeData st"
    and "map node_id (nodesArray st') = map node_id (nodesArray st)"
    and "map node_value (nodesArray st') = map node_value (nodesArray st)"
    and "linksArray st' = linksArray st"
  shows "fromProps st'"
  using assms by (simp add: fromProps_def forceLink_initialize_cong[OF assms(4)])

lemma props_edgeData_kept:
  "props_edgeData (simulationTick ps st) = props_edgeData st"
  "props_edgeData (toggleVisibility i st) = props_edgeData st"
  "props_edgeData (selectAll st) = props_edgeData st"
  "props_edgeData (selectNone st) = props_edgeData st"
  "props_edgeData (dragstarted event i st) = props_edgeData st"
  "props_edgeData (dragged event i st) = props_edgeData st"
  "props_edgeData (dragended event i st) = props_edgeData st"
  "props_edgeData (highlightConnectedNodes i st) = props_edgeData st"
  "props_edgeData (resetHighlightedNodes st) = props_edgeData st"
  "props_edgeData (highlightLink j st) = props_edgeData st"
  "props_edgeData (resetLinkHighlight st) = props_edgeData st"
  by (simp_all add: simulationTick_def toggleVisibility_def updateNodeVisibility_def selectAll_def
        selectNone_def dragstarted_def dragged_def dragended_def highlightConnectedNodes_def
        resetHighlightedNodes_def highlightLink_def resetLinkHighlight_def Let_def
        visibilityEffect_fields)

lemma linksArray_kept:
  "linksArray (simulationTick ps st) = linksArray st"
  "linksArray (toggleVisibility i st) = linksArray st"
  "linksArray (selectAll st) = linksArray st"
  "linksArray (selectNone st) = linksArray st"
  "linksArray (dragstarted event i st) = linksArray st"
  "linksArray (dragged event i st) = linksArray st"
  "linksArray (dragended event i st) = linksArray st"
  "linksArray (highlightConnectedNodes i st) = linksArray st"
  "linksArray (resetHighlightedNodes st) = linksArray st"
  "linksArray (highlightLink j st) = linksArray st"
  "linksArray (resetLinkHighlight st) = linksArray st"
  by (simp_all add: simulationTick_def toggleVisibility_def updateNodeVisibility_def selectAll_def
        selectNone_def dragstarted_def dragged_def dragended_def highlightConnectedNodes_def
        resetHighlightedNodes_def highlightLink_def resetLinkHighlight_def Let_def
        visibilityEffect_fields)

lemma node_ids_kept:
  "length ps = length (nodesArray st) \<Longrightarrow>
     map node_id (nodesArray (simulationTick ps st)) = map node_id (nodesArray st)"
  "map node_id (nodesArray (toggleVisibility i st)) = map node_id (nodesArray st)"
  "map node_id (nodesArray (selectAll st)) = map node_id (nodesArray st)"
  "map node_id (nodesArray (selectNone st)) = map node_id (nodesArray st)"
  "map node_id (nodesArray (dragstarted event i st)) = map node_id (nodesArray st)"
  "map node_id (nodesArray (dragged event i st)) = map node_id (nodesArray st)"
  "map node_id (nodesArray (dragended event i st)) = map node_id (nodesArray st)"
  "map node_id (nodesArray (highlightConnectedNodes i st)) = map node_id (nodesArray st)"
  "map node_id (nodesArray (resetHighlightedNodes st)) = map node_id (nodesArray st)"
  "map node_id (nodesArray (highlightLink j st)) = map node_id (nodesArray st)"
  "map node_id (nodesArray (resetLinkHighlight st)) = map node_id (nodesArray st)"
  by (auto simp: simulationTick_def toggleVisibility_def updateNodeVisibility_def selectAll_def
        selectNone_def dragstarted_def dragged_def dragended_def highlightConnectedNodes_def
        resetHighlightedNodes_def highlightLink_def resetLinkHighlight_def Let_def
        visibilityEffect_fields map_update_same comp_def case_prod_beta
      intro!: nth_equalityI)

lemma node_values_kept:
  "length ps = length (nodesArray st) \<Longrightarrow>
     map node_value (nodesArray (simulationTick ps st)) = map node_value (nodesArray st)"
  "map node_value (nodesArray (toggleVisibility i st)) = map node_value (nodesArray st)"
  "map node_value (nodesArray (selectAll st)) = map node_value (nodesArray st)"
  "map node_value (nodesArray (selectNone st)) = map node_value (nodesArray st)"
  "map node_value (nodesArray (dragstarted event i st)) = map node_value (nodesArray st)"
  "map node_value (nodesArray (dragged event i st)) = map node_value (nodesArray st)"
  "map node_value (nodesArray (dragended event i st)) = map node_value (nodesArray st)"
  "map node_value (nodesArray (highlightConnectedNodes i st)) = map node_value (nodesArray st)"
  "map node_value (nodesArray (resetHighlightedNodes st)) = map node_value (nodesArray st)"
  "map node_value (nodesArray (highlightLink j st)) = map node_value (nodesArray st)"
  "map node_value (nodesArray (resetLinkHighlight st)) = map node_value (nodesArray st)"
  by (auto simp: simulationTick_def toggleVisibility_def updateNodeVisibility_def selectAll_def
        selectNone_def dragstarted_def dragged_def dragended_def highlightConnectedNodes_def
        resetHighlightedNodes_def highlightLink_def resetLinkHighlight_def Let_def
        visibilityEffect_fields map_update_same comp_def case_prod_beta
      intro!: nth_equalityI)

lemma fromProps_setCurrentFilter:
  assumes "fromProps st" "setCurrentFilter mode st = Inr st'"
  shows "fromProps st' \<and> props_nodeData st' = props_nodeData st
         \<and> props_edgeData st' = props_edgeData st"
proof (cases "mode = currentFilter st")
  case True
  with assms show ?thesis by (simp add: setCurrentFilter_def)
next
  case False
  from mainEffect_Inr[of "props_nodeData st" "props_edgeData st" mode "Suc (generation st)"]
  obtain s where s: "mainEffect (props_nodeData st) (props_edgeData st) mode (Suc (generation st)) = Inr s"
    "props_nodeData s = props_nodeData st" "props_edgeData s = props_edgeData st"
    by blast
  with False assms(2)
  have "st' = (visibilityEffect s)\<lparr>superseded := superseded st @ [stop (simulation st)]\<rparr>"
    by (simp add: setCurrentFilter_def visibilityEffect_superseded)
  with fromProps_mainEffect[OF s(1)] s(2,3) show ?thesis
    by (simp add: visibilityEffect_fields superseded_update)
qed

lemma reachable_fromProps:
  assumes "reachable st"
  shows "fromProps st"
  using assms
proof (induction rule: reachable.induct)
  case (mounted nodeData edgeData st)
  from mainEffect_Inr[of nodeData edgeData "''all''" 1]
  obtain s where s: "mainEffect nodeData edgeData ''all'' 1 = Inr s" by blast
  with mounted(2) have "st = visibilityEffect s" by (simp add: mount_def)
  with fromProps_mainEffect[OF s] show ?case by simp
next
  case (filter_set st mode st')
  then show ?case using fromProps_setCurrentFilter by blast
qed (erule fromProps_cong;
     simp add: props_kept props_edgeData_kept linksArray_kept node_ids_kept node_values_kept)+

subsection \<open>The claim on changing the link filter\<close>

text \<open>
  In every reachable state the simulation of the component is running and the
  superseded ones are stopped.
\<close>

lemma simulations_kept:
  "running (simulation st) \<Longrightarrow> running (simulation (dragstarted event i st))"
  "running (simulation st) \<Longrightarrow> running (simulation (dragended event i st))"
  "simulation (simulationTick ps st) = simulation st"
  "simulation (toggleVisibility i st) = simulation st"
  "simulation (selectAll st) = simulation st"
  "simulation (selectNone st) = simulation st"
  "simulation (dragged event i st) = simulation st"
  "simulation (highlightConnectedNodes i st) = simulation st"
  "simulation (resetHighlightedNodes st) = simulation st"
  "simulation (highlightLink j st) = simulation st"
  "simulation (resetLinkHighlight st) = simulation st"
  by (simp_all add: simulationTick_def toggleVisibility_def updateNodeVisibility_def selectAll_def
        selectNone_def dragstarted_def dragged_def dragended_def highlightConnectedNodes_def
        resetHighlightedNodes_def highlightLink_def resetLinkHighlight_def Let_def
        visibilityEffect_fields)

lemma superseded_kept:
  "superseded (simulationTick ps st) = superseded st"
  "superseded (toggleVisibility i st) = superseded st"
  "superseded (selectAll st) = superseded st"
  "superseded (selectNone st) = superseded st"
  "superseded (dragstarted event i st) = superseded st"
  "superseded (dragged event i st) = superseded st"
  "superseded (dragended event i st) = superseded st"
  "superseded (highlightConnectedNodes i st) = superseded st"
  "superseded (resetHighlightedNodes st) = superseded st"
  "superseded (highlightLink j st) = superseded st"
  "superseded (resetLinkHighlight st) = superseded st"
  by (simp_all add: simulationTick_def toggleVisibility_def updateNodeVisibility_def selectAll_def
        selectNone_def dragstarted_def dragged_def dragended_def highlightConnectedNodes_def
        resetHighlightedNodes_def highlightLink_def resetLinkHighlight_def Let_def
        visibilityEffect_fields)

lemma reachable_simulations:
  assumes "reachable st"
  shows "running (simulation st) \<and> list_all (\<lambda>sim. \<not> running sim) (superseded st)"
  using assms
proof (induction rule: reachable.induct)
  case (mounted nodeData edgeData st)
  then show ?case
    by (auto simp: mount_def mainEffect_def Let_def visibilityEffect_fields forceSimulation_def
          split: sum.splits)
next
  case (filter_set st mode st')
  show ?case
  proof (cases "mode = currentFilter st")
    case True
    with filter_set show ?thesis by (simp add: setCurrentFilter_def)
  next
    case False
    from setCurrentFilter_other[OF False] filter_set.hyps(3)
    have "simulation st' = forceSimulation"
      "superseded st' = superseded st @ [stop (simulation st)]" by auto
    with filter_set.IH show ?thesis by (simp add: forceSimulation_def stop_def)
  qed
qed (simp_all add: simulations_kept superseded_kept)

text \<open>
  C3 (as amended).  In every reachable state a filter-mode change succeeds, sets the
  filter mode and leaves every line with the display style of the new mode; the
  node ids and values and the links (ends and values) are what they were.
  Setting the mode the component already has changes nothing at all.  Setting
  another mode runs the main effect again: the simulation the component had is
  stopped and superseded by a new one (the next generation, target temperature 0,
  running) over node objects built anew from the props, each of them visible and
  placed as at mounting; no superseded simulation is running.
\<close>

theorem C3_filter_change:
  assumes "reachable st"
  shows "\<exists>st'. setCurrentFilter mode st = Inr st'
     \<and> currentFilter st' = mode
     \<and> map display (linkElements st')
          = map (\<lambda>l. Some (linkDisplay mode (nodesArray st') l)) (linksArray st')
     \<and> map node_id (nodesArray st') = map node_id (nodesArray st)
     \<and> map node_value (nodesArray st') = map node_value (nodesArray st)
     \<and> linksArray st' = linksArray st
     \<and> (mode = currentFilter st \<longrightarrow> st' = st)
     \<and> (mode \<noteq> currentFilter st \<longrightarrow>
           generation st' = Suc (generation st) \<and> simulation st' = forceSimulation
           \<and> running (simulation st')
           \<and> superseded st' = superseded st @ [stop (simulation st)]
           \<and> list_all (\<lambda>sim. \<not> running sim) (superseded st')
           \<and> nodesArray st' = initializeNodes (buildNodes (props_nodeData st))
           \<and> list_all visible (nodesArray st'))"
proof (cases "mode = currentFilter st")
  case True
  from reachable_invariant[OF assms] have "displayed st" by simp
  with True show ?thesis by (simp add: setCurrentFilter_def displayed_def)
next
  case False
  from setCurrentFilter_other[OF False] obtain st' where
    st': "setCurrentFilter mode st = Inr st'" "currentFilter st' = mode"
      "generation st' = Suc (generation st)" "simulation st' = forceSimulation"
      "nodesArray st' = initializeNodes (buildNodes (props_nodeData st))"
      "list_all visible (nodesArray st')"
      "map display (linkElements st')
          = map (\<lambda>l. Some (linkDisplay mode (nodesArray st') l)) (linksArray st')"
      "superseded st' = superseded st @ [stop (simulation st)]"
    by blast
  have run: "running (simulation st')" "list_all (\<lambda>sim. \<not> running sim) (superseded st')"
    using reachable_simulations[OF assms] by (simp_all add: st'(4,8) forceSimulation_def stop_def)
  note fp = reachable_fromProps[OF assms]
  from fromProps_setCurrentFilter[OF fp st'(1)] have fp': "fromProps st'"
    and p: "props_nodeData st' = props_nodeData st" "props_edgeData st' = props_edgeData st"
    by simp_all
  have ids: "map node_id (nodesArray st') = map node_id (nodesArray st)"
    and vals: "map node_value (nodesArray st') = map node_value (nodesArray st)"
    using fp fp' p by (simp_all add: fromProps_def)
  have "Inr (linksArray st') = (Inr (linksArray st) :: error + Link list)"
    using fp fp' p forceLink_initialize_cong[OF ids] by (simp add: fromProps_def)
  then have "linksArray st' = linksArray st" by simp
  with st' run ids vals False show ?thesis by (intro exI[of _ st']) simp
qed

theorem C3_filter_change_witness:
  "reachable (toggleVisibility 0 App_state)
   \<and> ''negative'' \<noteq> currentFilter (toggleVisibility 0 App_state)
   \<and> ''all'' = currentFilter (toggleVisibility 0 App_state)
   \<and> setCurrentFilter ''all'' (toggleVisibility 0 App_state) = Inr (toggleVisibility 0 App_state)
   \<and> (\<exists>st'. setCurrentFilter ''negative'' (toggleVisibility 0 App_state) = Inr st'
          \<and> currentFilter st' = ''negative''
          \<and> map node_id (nodesArray st') = map node_id (nodesArray (toggleVisibility 0 App_state))
          \<and> linksArray st' = linksArray (toggleVisibility 0 App_state)
          \<and> generation st' = Suc (generation (toggleVisibility 0 App_state))
          \<and> running (simulation st')
          \<and> superseded st'
               = superseded (toggleVisibility 0 App_state)
                 @ [stop (simulation (toggleVisibility 0 App_state))]
          \<and> list_all (\<lambda>sim. \<not> running sim) (superseded st')
          \<and> list_all visible (nodesArray st'))"
proof -
  have len0: "0 < length (nodesArray App_state)" by (simp add: App_state_def eval_simps)
  have r: "reachable (toggleVisibility 0 App_state)"
    by (rule reachable.legend_clicked[OF reachable_App_state len0])
  have cf: "currentFilter (toggleVisibility 0 App_state) = ''all''"
    by (simp add: App_state_def toggleVisibility_def updateNodeVisibility_def eval_simps)
  from C3_filter_change[OF r, of "''all''"] C3_filter_change[OF r, of "''negative''"] r cf
  show ?thesis by auto
qed

text \<open>
  The claim as stated fails: after a filter change the simulation the component
  had is stopped and the simulation is another one, the hidden node is visible
  again and the nodes are back at their first places.
\<close>

theorem C3_filter_change_rebuilds_counterexample:
  "\<exists>st'. setCurrentFilter ''negative'' App_hidden_ticked = Inr st'
     \<and> generation st' \<noteq> generation App_hidden_ticked
     \<and> superseded App_hidden_ticked = [] \<and> map running (superseded st') = [False]
     \<and> map visible (nodesArray st') \<noteq> map visible (nodesArray App_hidden_ticked)
     \<and> map node_x (nodesArray st') \<noteq> map node_x (nodesArray App_hidden_ticked)"
  by (simp add: App_hidden_ticked_def setCurrentFilter_def simulationTick_def toggleVisibility_def
        updateNodeVisibility_def App_state_def eval_simps initialRadius_def stop_def)

end
